theory Spec2Isabelle
  imports Main "HOL-Library.AList" "HOL-Library.Word"
begin

unbundle bit_operations_syntax

section \<open>Data model (types.ts)\<close>

text \<open>
  A JavaScript string is a sequence of UTF-16 code units. Text that flows through the
  stream reader and the annotation pattern is modelled as a list of code units
  (\<open>jstring\<close>), since the pattern's character classes range over all of them; \<open>js\<close>
  embeds an ASCII literal of the source. Identifiers, names, paths, commands and ISO
  timestamps are opaque to every operation below and are kept as \<open>string\<close>.
\<close>

type_synonym jstring = "nat list"

definition js :: "string \<Rightarrow> jstring" where
  "js s = map of_char s"

datatype ProjectStatus =
  creating | building | waiting_for_input | serving | completed | failed | stopped

text \<open>
  \<open>ProjectNotification.status\<close> is typed as one of four keywords, but the value is an
  unchecked cast of whatever word the pattern captured, so the model keeps the word.
\<close>

record ProjectNotification =
  nstatus :: jstring
  phase :: "jstring option"
  content :: jstring

text \<open>A subprocess handle (agent or preview server) is an opaque process number.\<close>

type_synonym proc = nat

record ProjectMetadata =
  id' :: string
  name :: string
  description :: string
  techStack :: "string option"
  status :: ProjectStatus
  directory :: string
  createdAt :: string
  updatedAt :: string
  waitingSince :: "string option"
  lastNotification :: "ProjectNotification option"
  servingPort :: "nat option"
  serverProcess :: "proc option"
  agentProcess :: "proc option"
  sessionId :: "jstring option"
  outputBuffer :: jstring

text \<open>One row of the table \<open>pearbot_projects\<close>, with the columns \<open>saveProject\<close> writes.\<close>

record row =
  r_id :: string
  r_name :: string
  r_description :: string
  r_tech_stack :: "string option"
  r_status :: ProjectStatus
  r_directory :: string
  r_serving_port :: "nat option"
  r_session_id :: "jstring option"
  r_created_at :: string
  r_updated_at :: string
  r_waiting_since :: "string option"
  r_last_notification_json :: "ProjectNotification option"

text \<open>The errors the operations throw, named as in the spec's taxonomy.\<close>

datatype error =
  NotFound string
  | CapacityExceeded nat
  | NoLiveAgent string
  | SpawnError
  | NoPortsAvailable nat nat
  | ServeStartupFailure int string string

section \<open>The manager (class PearBotManager)\<close>

text \<open>
  The fields of the class, followed by what the class does to its environment: the
  store's table, the number of subprocesses spawned so far (the next handle), the
  \<open>kill()\<close> calls issued, the messages written to agents' standard input, the
  \<open>notification\<close> events emitted, the exit callbacks registered with
  \<open>proc.exited.then\<close> (each a closure over the project id, and for a preview server
  over the port), the \<open>spawnAgent\<close> calls suspended at their 2000 ms delay (each holding
  its project id and prompt), and the \<open>serveProject\<close> calls suspended at their startup
  race (each holding its project id, port, command and directory). \<open>projects\<close> is a JavaScript
  \<open>Map\<close>: keys are unique and keep their insertion order, so it is an association list
  updated in place.
\<close>

record PearBotManager =
  projects :: "(string \<times> ProjectMetadata) list"
  projectsDir :: string
  agentProcesses :: "string \<rightharpoonup> proc"
  serverProcesses :: "string \<rightharpoonup> proc"
  allocatedPorts :: "nat set"
  portRangeStart :: nat
  portRangeEnd :: nat
  maxConcurrentBuilds :: nat
  publicHost :: string
  db :: "string \<rightharpoonup> row"
  spawnCount :: nat
  killed :: "proc list"
  stdinWrites :: "(proc \<times> string) list"
  notifications :: "(string \<times> ProjectNotification) list"
  agentExitCallbacks :: "proc \<rightharpoonup> string"
  serverExitCallbacks :: "proc \<rightharpoonup> string \<times> nat"
  spawnPending :: "proc \<rightharpoonup> string \<times> string"
  servePending :: "proc \<rightharpoonup> string \<times> nat \<times> string \<times> string"

definition STALLED_AGENT_TIMEOUT_MS :: int where
  "STALLED_AGENT_TIMEOUT_MS = 60 * 60 * 1000"

text \<open>\<open>x || null\<close> on a string: the empty string is falsy.\<close>

definition orNull :: "'a list option \<Rightarrow> 'a list option" where
  "orNull x = (case x of None \<Rightarrow> None | Some s \<Rightarrow> if s = [] then None else Some s)"

text \<open>\<open>x || null\<close> on a number: zero is falsy.\<close>

definition orNullNum :: "nat option \<Rightarrow> nat option" where
  "orNullNum x = (case x of None \<Rightarrow> None | Some n \<Rightarrow> if n = 0 then None else Some n)"

definition getProject :: "PearBotManager \<Rightarrow> string \<Rightarrow> ProjectMetadata option" where
  "getProject m projectId = map_of (projects m) projectId"

text \<open>\<open>this.projects.set(projectId, project)\<close>.\<close>

definition setProject :: "string \<Rightarrow> ProjectMetadata \<Rightarrow> PearBotManager \<Rightarrow> PearBotManager" where
  "setProject projectId p m = m\<lparr>projects := AList.update projectId p (projects m)\<rparr>"

text \<open>
  Project records are objects mutated in place through a reference (\<open>project.status = ...\<close>).
  Records are never removed from \<open>projects\<close> and never replaced under their id, so the
  reference an operation or callback holds is the record stored under the id: \<open>mutate\<close>
  is such an assignment.
\<close>

definition mutate ::
  "string \<Rightarrow> (ProjectMetadata \<Rightarrow> ProjectMetadata) \<Rightarrow> PearBotManager \<Rightarrow> PearBotManager" where
  "mutate projectId f m =
     (case getProject m projectId of
        None \<Rightarrow> m
      | Some p \<Rightarrow> setProject projectId (f p) m)"

definition toRow :: "ProjectMetadata \<Rightarrow> row" where
  "toRow p = \<lparr> r_id = id' p, r_name = name p, r_description = description p,
     r_tech_stack = techStack p, r_status = status p, r_directory = directory p,
     r_serving_port = servingPort p, r_session_id = sessionId p,
     r_created_at = createdAt p, r_updated_at = updatedAt p,
     r_waiting_since = waitingSince p, r_last_notification_json = lastNotification p \<rparr>"

text \<open>
  \<open>saveProject(project)\<close>: INSERT OR REPLACE of the record's row, keyed by the record's own
  \<open>id\<close>. The store is the host's; the model takes it to accept every write
  (\<open>saveProject\<close> itself logs and drops a store error). \<open>save\<close> is the call on the record
  held under a project id.
\<close>

definition saveProject :: "ProjectMetadata \<Rightarrow> PearBotManager \<Rightarrow> PearBotManager" where
  "saveProject p m = m\<lparr>db := (db m)(id' p \<mapsto> toRow p)\<rparr>"

definition save :: "string \<Rightarrow> PearBotManager \<Rightarrow> PearBotManager" where
  "save projectId m =
     (case getProject m projectId of
        None \<Rightarrow> m
      | Some p \<Rightarrow> saveProject p m)"

text \<open>\<open>this.emit("notification", {projectId, notification})\<close>.\<close>

definition emitNotification ::
  "string \<Rightarrow> ProjectNotification \<Rightarrow> PearBotManager \<Rightarrow> PearBotManager" where
  "emitNotification projectId n m = m\<lparr>notifications := notifications m @ [(projectId, n)]\<rparr>"

definition getRunningCount :: "PearBotManager \<Rightarrow> nat" where
  "getRunningCount m =
     length (filter (\<lambda>(k, p). status p = building \<or> status p = creating) (projects m))"

definition killAgentProcess :: "string \<Rightarrow> PearBotManager \<Rightarrow> PearBotManager" where
  "killAgentProcess projectId m =
     (let m1 = (case agentProcesses m projectId of
                  Some pr \<Rightarrow> m\<lparr>killed := killed m @ [pr],
                               agentProcesses := (agentProcesses m)(projectId := None)\<rparr>
                | None \<Rightarrow> m)
      in mutate projectId (\<lambda>project. project\<lparr>agentProcess := None\<rparr>) m1)"

definition killServerProcess :: "string \<Rightarrow> PearBotManager \<Rightarrow> PearBotManager" where
  "killServerProcess projectId m =
     (let m1 = (case serverProcesses m projectId of
                  Some pr \<Rightarrow> m\<lparr>killed := killed m @ [pr],
                               serverProcesses := (serverProcesses m)(projectId := None)\<rparr>
                | None \<Rightarrow> m)
      in case getProject m1 projectId of
           None \<Rightarrow> m1
         | Some project \<Rightarrow>
             (let m2 = (case orNullNum (servingPort project) of
                          Some port \<Rightarrow> m1\<lparr>allocatedPorts := allocatedPorts m1 - {port}\<rparr>
                        | None \<Rightarrow> m1)
              in mutate projectId (\<lambda>project. project\<lparr>servingPort := None, serverProcess := None\<rparr>) m2))"

subsection \<open>Annotations applied to a project (readOutputStream, the notification branch)\<close>

text \<open>
  What the stream reader does with one extracted annotation. \<open>now\<close> is
  \<open>new Date().toISOString()\<close>; the clock readings of one operation are taken as one
  instant.
\<close>

definition applyNotification ::
  "string \<Rightarrow> ProjectNotification \<Rightarrow> string \<Rightarrow> PearBotManager \<Rightarrow> PearBotManager" where
  "applyNotification projectId notification now m =
     (case getProject m projectId of
        None \<Rightarrow> m
      | Some _ \<Rightarrow>
          (let m1 = mutate projectId
                      (\<lambda>project. project\<lparr>lastNotification := Some notification, updatedAt := now\<rparr>) m;
               m2 = (if nstatus notification = js ''success''
                       then mutate projectId
                              (\<lambda>project. project\<lparr>status := completed, waitingSince := None\<rparr>) m1
                     else if nstatus notification = js ''failed''
                       then mutate projectId
                              (\<lambda>project. project\<lparr>status := failed, waitingSince := None\<rparr>) m1
                     else if nstatus notification = js ''clarify''
                       then mutate projectId
                              (\<lambda>project. project\<lparr>status := waiting_for_input,
                                                   waitingSince := Some now\<rparr>) m1
                     else m1)
           in emitNotification projectId notification (save projectId m2)))"

subsection \<open>sendToProject (reply)\<close>

text \<open>
  Agents are spawned with \<open>stdin: "pipe"\<close>, so \<open>proc?.stdin\<close> is missing exactly when no
  agent process is registered for the project.
\<close>

definition sendToProject ::
  "string \<Rightarrow> string \<Rightarrow> string \<Rightarrow> PearBotManager \<Rightarrow> (error + ProjectStatus) \<times> PearBotManager" where
  "sendToProject projectId message now m =
     (case getProject m projectId of
        None \<Rightarrow> (Inl (NotFound projectId), m)
      | Some _ \<Rightarrow>
          (case agentProcesses m projectId of
             None \<Rightarrow> (Inl (NoLiveAgent projectId), m)
           | Some pr \<Rightarrow>
               (let m1 = m\<lparr>stdinWrites := stdinWrites m @ [(pr, message)]\<rparr>;
                    m2 = mutate projectId
                           (\<lambda>project. project\<lparr>status := building, waitingSince := None,
                                                updatedAt := now\<rparr>) m1
                in (Inr building, save projectId m2))))"

subsection \<open>spawnAgent and the agent's exit callback\<close>

text \<open>The body of the callback \<open>proc.exited.then\<close> registered by \<open>spawnAgent\<close>.\<close>

definition agentExited :: "string \<Rightarrow> int \<Rightarrow> string \<Rightarrow> PearBotManager \<Rightarrow> PearBotManager" where
  "agentExited projectId exitCode now m =
     (let m1 = m\<lparr>agentProcesses := (agentProcesses m)(projectId := None)\<rparr>
      in case getProject m1 projectId of
           None \<Rightarrow> m1
         | Some _ \<Rightarrow>
             (let m2 = mutate projectId (\<lambda>p. p\<lparr>agentProcess := None\<rparr>) m1;
                  m3 = mutate projectId
                         (\<lambda>p. if status p = building \<or> status p = creating
                                then p\<lparr>status := (if exitCode = 0 then completed else failed)\<rparr>
                              else p) m2;
                  m4 = mutate projectId (\<lambda>p. p\<lparr>updatedAt := now\<rparr>) m3
              in save projectId m4))"

text \<open>
  \<open>spawn\<close> either throws (\<open>spawnOk\<close> is false: the executable cannot be started) or returns
  a new handle. \<open>spawnAgent\<close> suspends once, at its 2000 ms delay. \<open>spawnAgentLaunch\<close> is the
  code before the delay: it registers the process, starts the two stream readers and
  registers the exit callback; it returns the new handle, or nothing when the project is
  unknown. \<open>spawnAgentSettle\<close> is the code after the delay: it writes the prompt to the
  process it spawned and marks the project as building. Other events may run in between.
\<close>

definition spawnAgentLaunch ::
  "string \<Rightarrow> string \<Rightarrow> bool \<Rightarrow> PearBotManager \<Rightarrow> (error + proc option) \<times> PearBotManager" where
  "spawnAgentLaunch projectId initialPrompt spawnOk m =
     (case getProject m projectId of
        None \<Rightarrow> (Inr None, m)
      | Some _ \<Rightarrow>
          if \<not> spawnOk then (Inl SpawnError, m)
          else
            (let pr = spawnCount m;
                 m1 = m\<lparr>spawnCount := Suc (spawnCount m),
                        agentProcesses := (agentProcesses m)(projectId \<mapsto> pr)\<rparr>;
                 m2 = mutate projectId (\<lambda>project. project\<lparr>agentProcess := Some pr\<rparr>) m1
             in (Inr (Some pr),
                 m2\<lparr>agentExitCallbacks := (agentExitCallbacks m2)(pr \<mapsto> projectId),
                    spawnPending := (spawnPending m2)(pr \<mapsto> (projectId, initialPrompt))\<rparr>)))"

definition spawnAgentSettle :: "proc \<Rightarrow> string \<Rightarrow> PearBotManager \<Rightarrow> PearBotManager" where
  "spawnAgentSettle pr now m =
     (case spawnPending m pr of
        None \<Rightarrow> m
      | Some (projectId, initialPrompt) \<Rightarrow>
          (let m0 = m\<lparr>spawnPending := (spawnPending m)(pr := None)\<rparr>;
               m1 = m0\<lparr>stdinWrites := stdinWrites m0 @ [(pr, initialPrompt)]\<rparr>;
               m2 = mutate projectId
                      (\<lambda>project. project\<lparr>status := building, updatedAt := now\<rparr>) m1
           in save projectId m2))"

text \<open>The rest of an operation that awaits \<open>spawnAgent\<close>, once \<open>spawnAgentLaunch\<close> has run.\<close>

definition spawnAgentResume :: "proc option \<Rightarrow> string \<Rightarrow> PearBotManager \<Rightarrow> PearBotManager" where
  "spawnAgentResume launched now m =
     (case launched of
        None \<Rightarrow> m
      | Some pr \<Rightarrow> spawnAgentSettle pr now m)"

subsection \<open>createProject and openProject\<close>

definition joinLines :: "string list \<Rightarrow> string" where
  "joinLines parts = concat (case parts of [] \<Rightarrow> [] | p # ps \<Rightarrow> p # map (\<lambda>s. CHR 0x0A # s) ps)"

definition buildCreatePrompt :: "string \<Rightarrow> string \<Rightarrow> string option \<Rightarrow> string" where
  "buildCreatePrompt nm descr ts =
     joinLines
       ([''Build a complete project called '' @ [CHR 0x22] @ nm @ [CHR 0x22] @ ''.'', [],
         ''Description: '' @ descr]
        @ (case orNull ts of Some t \<Rightarrow> [''Tech stack: '' @ t] | None \<Rightarrow> [])
        @ [[], ''Build this project from scratch in the current directory.'',
           ''Follow the instructions in your system prompt for communication protocol and workflow.''])"

text \<open>
  \<open>projectId\<close> is the fresh identifier built from the clock and \<open>Math.random\<close>; the project
  directory is \<open>join(projectsDir, projectId)\<close>. \<open>createProjectLaunch\<close> is \<open>createProject\<close>
  up to the delay inside \<open>spawnAgent\<close>.
\<close>

definition createProjectLaunch ::
  "string \<Rightarrow> string \<Rightarrow> string option \<Rightarrow> string \<Rightarrow> string \<Rightarrow> bool \<Rightarrow> PearBotManager
     \<Rightarrow> (error + proc option) \<times> PearBotManager" where
  "createProjectLaunch nm descr ts projectId now spawnOk m =
     (let running = getRunningCount m
      in if running \<ge> maxConcurrentBuilds m
           then (Inl (CapacityExceeded (maxConcurrentBuilds m)), m)
         else
           (let project = \<lparr> id' = projectId, name = nm, description = descr,
                  techStack = orNull ts, status = creating,
                  directory = projectsDir m @ ''/'' @ projectId,
                  createdAt = now, updatedAt = now, waitingSince = None,
                  lastNotification = None, servingPort = None, serverProcess = None,
                  agentProcess = None, sessionId = None, outputBuffer = [] \<rparr>;
                m1 = saveProject project (setProject projectId project m)
            in spawnAgentLaunch projectId (buildCreatePrompt nm descr ts) spawnOk m1))"

text \<open>
  \<open>createProject\<close> with no other event during the delay; \<open>settled\<close> is the clock reading
  after the delay. The value returned is the literal \<open>creating\<close>.
\<close>

definition createProject ::
  "string \<Rightarrow> string \<Rightarrow> string option \<Rightarrow> string \<Rightarrow> string \<Rightarrow> bool \<Rightarrow> string \<Rightarrow> PearBotManager
     \<Rightarrow> (error + string \<times> ProjectStatus) \<times> PearBotManager" where
  "createProject nm descr ts projectId now spawnOk settled m =
     (case createProjectLaunch nm descr ts projectId now spawnOk m of
        (Inl e, m1) \<Rightarrow> (Inl e, m1)
      | (Inr launched, m1) \<Rightarrow> (Inr (projectId, creating), spawnAgentResume launched settled m1))"

definition openPrompt :: "ProjectMetadata \<Rightarrow> string \<Rightarrow> string" where
  "openPrompt project task =
     joinLines (filter (\<lambda>s. s \<noteq> [])
       [''You are resuming work on an existing project called '' @ [CHR 0x22] @ name project
          @ [CHR 0x22] @ ''.'',
        ''Project description: '' @ description project,
        (case orNull (techStack project) of Some t \<Rightarrow> ''Tech stack: '' @ t | None \<Rightarrow> []),
        [],
        ''FIRST: Explore the existing files in this directory to understand what has already been built.'',
        ''THEN: Perform this task:'',
        [],
        task])"

text \<open>\<open>openProjectLaunch\<close> is \<open>openProject\<close> up to the delay inside \<open>spawnAgent\<close>.\<close>

definition openProjectLaunch ::
  "string \<Rightarrow> string \<Rightarrow> string \<Rightarrow> bool \<Rightarrow> PearBotManager
     \<Rightarrow> (error + proc option) \<times> PearBotManager" where
  "openProjectLaunch projectId task now spawnOk m =
     (case getProject m projectId of
        None \<Rightarrow> (Inl (NotFound projectId), m)
      | Some project \<Rightarrow>
          (let m1 = (if agentProcesses m projectId \<noteq> None then killAgentProcess projectId m else m);
               running = getRunningCount m1
           in if running \<ge> maxConcurrentBuilds m1
                then (Inl (CapacityExceeded (maxConcurrentBuilds m1)), m1)
              else
                (let m2 = mutate projectId
                            (\<lambda>project. project\<lparr>status := building, updatedAt := now\<rparr>) m1;
                     m3 = save projectId m2
                 in spawnAgentLaunch projectId (openPrompt project task) spawnOk m3)))"

text \<open>\<open>openProject\<close> with no other event during the delay.\<close>

definition openProject ::
  "string \<Rightarrow> string \<Rightarrow> string \<Rightarrow> bool \<Rightarrow> string \<Rightarrow> PearBotManager
     \<Rightarrow> (error + ProjectStatus) \<times> PearBotManager" where
  "openProject projectId task now spawnOk settled m =
     (case openProjectLaunch projectId task now spawnOk m of
        (Inl e, m1) \<Rightarrow> (Inl e, m1)
      | (Inr launched, m1) \<Rightarrow> (Inr building, spawnAgentResume launched settled m1))"

subsection \<open>stopProject and stopAll\<close>

definition stopProject :: "string \<Rightarrow> string \<Rightarrow> PearBotManager \<Rightarrow> bool \<times> PearBotManager" where
  "stopProject projectId now m =
     (case getProject m projectId of
        None \<Rightarrow> (False, m)
      | Some _ \<Rightarrow>
          (let m1 = killAgentProcess projectId m;
               m2 = killServerProcess projectId m1;
               m3 = mutate projectId (\<lambda>project. project\<lparr>status := stopped, updatedAt := now\<rparr>) m2
           in (True, save projectId m3)))"

text \<open>The timers \<open>stopAll\<close> clears are not part of the state: a sweep is an event.\<close>

definition stopAll :: "PearBotManager \<Rightarrow> PearBotManager" where
  "stopAll m =
     (fold (\<lambda>projectId m'. killServerProcess projectId (killAgentProcess projectId m'))
        (map fst (projects m)) m)\<lparr>allocatedPorts := {}\<rparr>"

subsection \<open>The port allocator and serveProject\<close>

text \<open>
  \<open>testPort\<close> is the operating system's answer to the bind probe of a port at the time of
  the call.
\<close>

definition findAvailablePort :: "(nat \<Rightarrow> bool) \<Rightarrow> PearBotManager \<Rightarrow> nat option" where
  "findAvailablePort testPort m =
     List.find (\<lambda>port. port \<notin> allocatedPorts m \<and> testPort port)
       [portRangeStart m ..< Suc (portRangeEnd m)]"

text \<open>
  \<open>serveProject\<close> suspends once, at the race between the new process's exit and the
  3000 ms timer. \<open>serveLaunch\<close> is the code before the race and \<open>serveSettle\<close> the code
  after it; \<open>earlyExit\<close> is the race's result (the exit code, or \<open>None\<close> when the timer
  won). \<open>findProjectRoot\<close> and \<open>detectServeCommand\<close> read the file system and are taken
  as given.
\<close>

definition serveLaunch ::
  "string \<Rightarrow> string option \<Rightarrow> (nat \<Rightarrow> bool) \<Rightarrow> (string \<Rightarrow> string) \<Rightarrow> (string \<Rightarrow> string) \<Rightarrow> bool
     \<Rightarrow> PearBotManager \<Rightarrow> (error + proc) \<times> PearBotManager" where
  "serveLaunch projectId command testPort findProjectRoot detectServeCommand spawnOk m =
     (case getProject m projectId of
        None \<Rightarrow> (Inl (NotFound projectId), m)
      | Some project \<Rightarrow>
          (let m1 = killServerProcess projectId m
           in case findAvailablePort testPort m1 of
                None \<Rightarrow> (Inl (NoPortsAvailable (portRangeStart m1) (portRangeEnd m1)), m1)
              | Some port \<Rightarrow>
                  (let m2 = m1\<lparr>allocatedPorts := insert port (allocatedPorts m1)\<rparr>;
                       serveDir = findProjectRoot (directory project);
                       cmd = (case orNull command of
                                Some c \<Rightarrow> c
                              | None \<Rightarrow> detectServeCommand serveDir)
                   in if \<not> spawnOk then (Inl SpawnError, m2)
                      else
                        (let pr = spawnCount m2
                         in (Inr pr,
                             m2\<lparr>spawnCount := Suc (spawnCount m2),
                                serverProcesses := (serverProcesses m2)(projectId \<mapsto> pr),
                                servePending :=
                                  (servePending m2)(pr \<mapsto> (projectId, port, cmd, serveDir))\<rparr>)))))"

definition serveUrl :: "PearBotManager \<Rightarrow> nat \<Rightarrow> string \<times> string \<times> nat" where
  "serveUrl m port =
     (if publicHost m = [] then ''http'' else ''https'',
      if publicHost m = [] then ''localhost'' else publicHost m,
      port)"

definition serveSettle ::
  "proc \<Rightarrow> int option \<Rightarrow> string \<Rightarrow> PearBotManager
     \<Rightarrow> (error + nat \<times> (string \<times> string \<times> nat)) option \<times> PearBotManager" where
  "serveSettle pr earlyExit now m =
     (case servePending m pr of
        None \<Rightarrow> (None, m)
      | Some (projectId, port, cmd, serveDir) \<Rightarrow>
          (let m0 = m\<lparr>servePending := (servePending m)(pr := None)\<rparr>
           in case earlyExit of
                Some code \<Rightarrow>
                  (let m1 = m0\<lparr>allocatedPorts := allocatedPorts m0 - {port},
                                 serverProcesses := (serverProcesses m0)(projectId := None)\<rparr>;
                       m2 = mutate projectId
                              (\<lambda>project. project\<lparr>status := failed, updatedAt := now\<rparr>) m1
                   in (Some (Inl (ServeStartupFailure code cmd serveDir)), save projectId m2))
              | None \<Rightarrow>
                  (let m1 = m0\<lparr>serverExitCallbacks :=
                                   (serverExitCallbacks m0)(pr \<mapsto> (projectId, port))\<rparr>;
                       m2 = mutate projectId
                              (\<lambda>project. project\<lparr>status := serving, servingPort := Some port,
                                                   updatedAt := now\<rparr>) m1
                   in (Some (Inr (port, serveUrl m port)), save projectId m2))))"

text \<open>\<open>serveProject\<close> with no other event during its startup race.\<close>

definition serveProject ::
  "string \<Rightarrow> string option \<Rightarrow> (nat \<Rightarrow> bool) \<Rightarrow> (string \<Rightarrow> string) \<Rightarrow> (string \<Rightarrow> string) \<Rightarrow> bool
     \<Rightarrow> int option \<Rightarrow> string \<Rightarrow> PearBotManager
     \<Rightarrow> (error + nat \<times> (string \<times> string \<times> nat)) \<times> PearBotManager" where
  "serveProject projectId command testPort findProjectRoot detectServeCommand spawnOk
       earlyExit now m =
     (case serveLaunch projectId command testPort findProjectRoot detectServeCommand spawnOk m of
        (Inl e, m1) \<Rightarrow> (Inl e, m1)
      | (Inr pr, m1) \<Rightarrow>
          (case serveSettle pr earlyExit now m1 of
             (Some r, m2) \<Rightarrow> (r, m2)
           | (None, m2) \<Rightarrow> (Inl SpawnError, m2)))"

text \<open>The body of the callback \<open>proc.exited.then\<close> registered by \<open>serveProject\<close>.\<close>

definition serverExited ::
  "string \<Rightarrow> nat \<Rightarrow> int \<Rightarrow> string \<Rightarrow> PearBotManager \<Rightarrow> PearBotManager" where
  "serverExited projectId port exitCode now m =
     (let m1 = m\<lparr>allocatedPorts := allocatedPorts m - {port},
                   serverProcesses := (serverProcesses m)(projectId := None)\<rparr>
      in case getProject m1 projectId of
           None \<Rightarrow> m1
         | Some p \<Rightarrow>
             if status p = serving
               then save projectId
                      (mutate projectId
                         (\<lambda>p. p\<lparr>status := completed, servingPort := None, updatedAt := now\<rparr>) m1)
             else m1)"

subsection \<open>The stall-detection sweep (startStalledCheckInterval)\<close>

text \<open>
  One tick of the timer. \<open>nowMs\<close> is \<open>Date.now()\<close>; \<open>getTime\<close> is
  \<open>new Date(s).getTime()\<close>, \<open>None\<close> standing for \<open>NaN\<close> (every comparison with it is
  false); \<open>now\<close> is \<open>new Date().toISOString()\<close>.
\<close>

definition timedOutNotification :: ProjectNotification where
  "timedOutNotification =
     \<lparr> nstatus = js ''failed'', phase = None, content = js ''Agent timed out after 1 hour'' \<rparr>"

definition stalledCheckProject ::
  "int \<Rightarrow> (string \<Rightarrow> int option) \<Rightarrow> string \<Rightarrow> string \<Rightarrow> PearBotManager \<Rightarrow> PearBotManager" where
  "stalledCheckProject nowMs getTime now projectId m =
     (case getProject m projectId of
        None \<Rightarrow> m
      | Some project \<Rightarrow>
          if (status project = building \<or> status project = creating)
             \<and> agentProcesses m projectId \<noteq> None
          then
            (case getTime (createdAt project) of
               None \<Rightarrow> m
             | Some created \<Rightarrow>
                 (let runtime = nowMs - created
                  in if runtime > STALLED_AGENT_TIMEOUT_MS
                       then
                         (let m1 = killAgentProcess projectId m;
                              m2 = mutate projectId
                                     (\<lambda>project. project\<lparr>status := failed,
                                         lastNotification := Some timedOutNotification,
                                         updatedAt := now\<rparr>) m1;
                              m3 = save projectId m2
                          in emitNotification projectId timedOutNotification m3)
                     else m))
          else m)"

definition stalledCheck ::
  "int \<Rightarrow> (string \<Rightarrow> int option) \<Rightarrow> string \<Rightarrow> PearBotManager \<Rightarrow> PearBotManager" where
  "stalledCheck nowMs getTime now m =
     fold (stalledCheckProject nowMs getTime now) (map fst (projects m)) m"

subsection \<open>Construction and init\<close>

text \<open>A setting the host does not define is \<open>None\<close>; \<open>||\<close> supplies the default.\<close>

definition settingOr :: "nat option \<Rightarrow> nat \<Rightarrow> nat" where
  "settingOr s d = (case orNullNum s of Some n \<Rightarrow> n | None \<Rightarrow> d)"

definition newManager ::
  "string \<Rightarrow> nat option \<Rightarrow> nat option \<Rightarrow> nat option \<Rightarrow> string option \<Rightarrow> PearBotManager" where
  "newManager dir rangeStart rangeEnd maxBuilds host =
     \<lparr> projects = [], projectsDir = dir, agentProcesses = Map.empty,
       serverProcesses = Map.empty, allocatedPorts = {},
       portRangeStart = settingOr rangeStart 4000, portRangeEnd = settingOr rangeEnd 4999,
       maxConcurrentBuilds = settingOr maxBuilds 3,
       publicHost = (case orNull host of Some h \<Rightarrow> h | None \<Rightarrow> []),
       db = Map.empty, spawnCount = 0, killed = [], stdinWrites = [], notifications = [],
       agentExitCallbacks = Map.empty, serverExitCallbacks = Map.empty,
       spawnPending = Map.empty, servePending = Map.empty \<rparr>"

text \<open>The record \<open>init\<close> builds from one row of the table.\<close>

definition loadRow :: "row \<Rightarrow> ProjectMetadata" where
  "loadRow r =
     \<lparr> id' = r_id r, name = r_name r, description = r_description r,
       techStack = orNull (r_tech_stack r),
       status = (if r_status r = building \<or> r_status r = creating then stopped else r_status r),
       directory = r_directory r, createdAt = r_created_at r, updatedAt = r_updated_at r,
       waitingSince = orNull (r_waiting_since r),
       lastNotification = r_last_notification_json r,
       servingPort = orNullNum (r_serving_port r),
       serverProcess = None, agentProcess = None,
       sessionId = orNull (r_session_id r), outputBuffer = [] \<rparr>"

text \<open>
  \<open>init\<close> reads every row of the table (which holds the rows written before the restart)
  and stores its record under the row's id.
\<close>

definition init :: "row list \<Rightarrow> PearBotManager \<Rightarrow> PearBotManager" where
  "init rows m = fold (\<lambda>r. setProject (r_id r) (loadRow r)) rows m"

section \<open>The protocol stream reader (readOutputStream)\<close>

subsection \<open>The streaming text decoder\<close>

text \<open>
  \<open>new TextDecoder()\<close> decodes UTF-8; \<open>decoder.decode(value, {stream: true})\<close> keeps the
  decoder's state from one call to the next, so a character whose bytes are split
  between two chunks is decoded once its last byte arrives. The decoder is the one of
  the Encoding standard: a lead byte opens a sequence, each continuation byte is checked
  against the current bounds, an ill-formed sequence yields U+FFFD and the offending byte
  is decoded again from the initial state, and the first code point of the stream is
  dropped when it is a byte order mark. A code point above U+FFFF becomes a surrogate
  pair of code units.
\<close>

type_synonym byte = "8 word"

record TextDecoder =
  codePoint :: nat
  bytesSeen :: nat
  bytesNeeded :: nat
  lowerBoundary :: nat
  upperBoundary :: nat
  bomSeen :: bool

definition newTextDecoder :: TextDecoder where
  "newTextDecoder =
     \<lparr> codePoint = 0, bytesSeen = 0, bytesNeeded = 0, lowerBoundary = 0x80,
       upperBoundary = 0xBF, bomSeen = False \<rparr>"

definition utf8Lead :: "nat \<Rightarrow> TextDecoder \<Rightarrow> TextDecoder \<times> nat list" where
  "utf8Lead b d =
     (if b \<le> 0x7F then (d, [b])
      else if 0xC2 \<le> b \<and> b \<le> 0xDF
        then (d\<lparr>bytesNeeded := 1, codePoint := b AND 0x1F\<rparr>, [])
      else if 0xE0 \<le> b \<and> b \<le> 0xEF
        then (d\<lparr>lowerBoundary := (if b = 0xE0 then 0xA0 else lowerBoundary d),
                upperBoundary := (if b = 0xED then 0x9F else upperBoundary d),
                bytesNeeded := 2, codePoint := b AND 0xF\<rparr>, [])
      else if 0xF0 \<le> b \<and> b \<le> 0xF4
        then (d\<lparr>lowerBoundary := (if b = 0xF0 then 0x90 else lowerBoundary d),
                upperBoundary := (if b = 0xF4 then 0x8F else upperBoundary d),
                bytesNeeded := 3, codePoint := b AND 0x7\<rparr>, [])
      else (d, [0xFFFD]))"

definition utf8Handler :: "nat \<Rightarrow> TextDecoder \<Rightarrow> TextDecoder \<times> nat list" where
  "utf8Handler b d =
     (if bytesNeeded d = 0 then utf8Lead b d
      else if b < lowerBoundary d \<or> upperBoundary d < b
        then (case utf8Lead b (d\<lparr>codePoint := 0, bytesNeeded := 0, bytesSeen := 0,
                                   lowerBoundary := 0x80, upperBoundary := 0xBF\<rparr>) of
                (d1, out) \<Rightarrow> (d1, 0xFFFD # out))
      else
        (let d1 = d\<lparr>lowerBoundary := 0x80, upperBoundary := 0xBF,
                      codePoint := push_bit 6 (codePoint d) OR (b AND 0x3F),
                      bytesSeen := bytesSeen d + 1\<rparr>
         in if bytesSeen d1 \<noteq> bytesNeeded d1 then (d1, [])
            else (d1\<lparr>codePoint := 0, bytesNeeded := 0, bytesSeen := 0\<rparr>, [codePoint d1])))"

definition codeUnits :: "nat \<Rightarrow> jstring" where
  "codeUnits cp =
     (if cp \<le> 0xFFFF then [cp]
      else [0xD800 + drop_bit 10 (cp - 0x10000), 0xDC00 + ((cp - 0x10000) AND 0x3FF)])"

fun serialize :: "nat list \<Rightarrow> TextDecoder \<Rightarrow> TextDecoder \<times> jstring" where
  "serialize [] d = (d, [])"
| "serialize (cp # cps) d =
     (if \<not> bomSeen d
        then (case serialize cps (d\<lparr>bomSeen := True\<rparr>) of
                (d1, out) \<Rightarrow> (d1, (if cp = 0xFEFF then [] else codeUnits cp) @ out))
      else (case serialize cps d of (d1, out) \<Rightarrow> (d1, codeUnits cp @ out)))"

fun decode :: "TextDecoder \<Rightarrow> byte list \<Rightarrow> TextDecoder \<times> jstring" where
  "decode d [] = (d, [])"
| "decode d (b # bs) =
     (case utf8Handler (unat b) d of
        (d1, cps) \<Rightarrow>
          (case serialize cps d1 of
             (d2, out1) \<Rightarrow>
               (case decode d2 bs of (d3, out2) \<Rightarrow> (d3, out1 @ out2))))"

subsection \<open>Lines and records\<close>

text \<open>
  \<open>s.split("\n")\<close>: the pieces between newlines; never empty, the last piece is what
  follows the last newline.
\<close>

fun splitNewline :: "jstring \<Rightarrow> jstring list" where
  "splitNewline [] = [[]]"
| "splitNewline (c # cs) =
     (if c = 0x0A then [] # splitNewline cs
      else (case splitNewline cs of
              [] \<Rightarrow> [[c]]
            | l # ls \<Rightarrow> (c # l) # ls))"

text \<open>
  White space and line terminators, as code units: what \<open>trim()\<close> strips and what \<open>\s\<close>
  matches in a pattern without the unicode flag.
\<close>

definition isSpace :: "nat \<Rightarrow> bool" where
  "isSpace c \<longleftrightarrow>
     c \<in> {0x09, 0x0A, 0x0B, 0x0C, 0x0D, 0x20, 0xA0, 0x1680, 0x2028, 0x2029, 0x202F, 0x205F,
          0x3000, 0xFEFF}
     \<or> (0x2000 \<le> c \<and> c \<le> 0x200A)"

definition trim :: "jstring \<Rightarrow> jstring" where
  "trim s = rev (dropWhile isSpace (rev (dropWhile isSpace s)))"

text \<open>
  One turn of the reading loop, on one chunk. The decoded text is appended to the
  project's \<open>outputBuffer\<close>, the buffer is split at newlines, the last piece goes back to
  the buffer (\<open>lines.pop() || ""\<close>) and every other piece that is not blank is given to
  \<open>JSON.parse\<close>; a line it rejects is skipped. \<open>JSON_parse\<close> is the platform's parser
  (\<open>None\<close> when it throws). The reader's state is the decoder and the buffer; the result
  lists the records parsed, in order. Each record is then handled on its own (session
  id, annotations of an assistant message), which \<open>applyNotification\<close> models for an
  annotation. \<open>readOutputStream\<close> is the loop over the chunks the stream delivers.
\<close>

definition readChunk ::
  "(jstring \<Rightarrow> 'j option) \<Rightarrow> TextDecoder \<times> jstring \<Rightarrow> byte list
     \<Rightarrow> (TextDecoder \<times> jstring) \<times> 'j list" where
  "readChunk JSON_parse r chunk =
     (case r of
        (decoder, buffer) \<Rightarrow>
          (case decode decoder chunk of
             (decoder1, text) \<Rightarrow>
               (let lines = splitNewline (buffer @ text);
                    buffer1 = (case lines of [] \<Rightarrow> [] | _ \<Rightarrow> last lines);
                    lines1 = butlast lines
                in ((decoder1, buffer1),
                    List.map_filter
                      (\<lambda>line. if trim line = [] then None else JSON_parse line) lines1))))"

fun readOutputStream ::
  "(jstring \<Rightarrow> 'j option) \<Rightarrow> TextDecoder \<times> jstring \<Rightarrow> byte list list
     \<Rightarrow> (TextDecoder \<times> jstring) \<times> 'j list" where
  "readOutputStream JSON_parse r [] = (r, [])"
| "readOutputStream JSON_parse r (chunk # rest) =
     (case readChunk JSON_parse r chunk of
        (r1, records1) \<Rightarrow>
          (case readOutputStream JSON_parse r1 rest of
             (r2, records2) \<Rightarrow> (r2, records1 @ records2)))"

section \<open>The annotation pattern (parseNotification)\<close>

text \<open>
  \<open>text.match(/<pearbot\s+status="(\w+)"(?:\s+phase="([^"]*)")?>([\s\S]*?)<\/pearbot>/)\<close>
  is modelled as the backtracking search it is. A piece of the pattern maps the input to
  the list of ways it can match at the start of the input, in the order the matcher tries
  them: each way is what the piece consumed (or captured) and the rest of the input. A
  sequence of pieces is a list comprehension, so the first element of the list is the
  match the matcher finds first. The code unit \<open>0x22\<close> is the double quote, \<open>0x0A\<close> the
  newline.
\<close>

text \<open>\<open>\w\<close> without the unicode and ignore-case flags: ASCII letters, digits and underscore.\<close>

definition isWord :: "nat \<Rightarrow> bool" where
  "isWord c \<longleftrightarrow>
     (0x30 \<le> c \<and> c \<le> 0x39) \<or> (0x41 \<le> c \<and> c \<le> 0x5A) \<or> c = 0x5F \<or> (0x61 \<le> c \<and> c \<le> 0x7A)"

text \<open>
  A literal; \<open>X*\<close> and \<open>X+\<close> over a character class, greedy (the longest run first, then
  shorter ones); and \<open>X*?\<close>, lazy (the shortest run first).
\<close>

definition lit :: "jstring \<Rightarrow> jstring \<Rightarrow> jstring list" where
  "lit s inp = (if take (length s) inp = s then [drop (length s) inp] else [])"

fun starGreedy :: "(nat \<Rightarrow> bool) \<Rightarrow> jstring \<Rightarrow> (jstring \<times> jstring) list" where
  "starGreedy P [] = [([], [])]"
| "starGreedy P (c # cs) =
     (if P c then map (\<lambda>(t, r). (c # t, r)) (starGreedy P cs) else []) @ [([], c # cs)]"

fun plusGreedy :: "(nat \<Rightarrow> bool) \<Rightarrow> jstring \<Rightarrow> (jstring \<times> jstring) list" where
  "plusGreedy P [] = []"
| "plusGreedy P (c # cs) =
     (if P c then map (\<lambda>(t, r). (c # t, r)) (starGreedy P cs) else [])"

fun starLazy :: "(nat \<Rightarrow> bool) \<Rightarrow> jstring \<Rightarrow> (jstring \<times> jstring) list" where
  "starLazy P [] = [([], [])]"
| "starLazy P (c # cs) =
     ([], c # cs) # (if P c then map (\<lambda>(t, r). (c # t, r)) (starLazy P cs) else [])"

text \<open>
  \<open>(?:\s+phase="([^"]*)")?\<close>: the group is tried first and captures the phase; when it
  cannot match, it is skipped and the capture is undefined. \<open>openTag\<close> is the pattern up
  to the \<open>>\<close> that closes the opening tag, with the captures for status and phase;
  \<open>matchHere\<close> is the whole pattern at one position, with its three captures.
\<close>

definition phaseAttribute :: "jstring \<Rightarrow> (jstring option \<times> jstring) list" where
  "phaseAttribute inp =
     [(Some p, r4).
        (ws, r1) \<leftarrow> plusGreedy isSpace inp,
        r2 \<leftarrow> lit (js ''phase='' @ [0x22]) r1,
        (p, r3) \<leftarrow> starGreedy (\<lambda>c. c \<noteq> 0x22) r2,
        r4 \<leftarrow> lit [0x22] r3]
     @ [(None, inp)]"

definition openTag :: "jstring \<Rightarrow> (jstring \<times> jstring option \<times> jstring) list" where
  "openTag inp =
     [(st, ph, r7).
        r1 \<leftarrow> lit (js ''<pearbot'') inp,
        (ws, r2) \<leftarrow> plusGreedy isSpace r1,
        r3 \<leftarrow> lit (js ''status='' @ [0x22]) r2,
        (st, r4) \<leftarrow> plusGreedy isWord r3,
        r5 \<leftarrow> lit [0x22] r4,
        (ph, r6) \<leftarrow> phaseAttribute r5,
        r7 \<leftarrow> lit (js ''>'') r6]"

definition matchHere :: "jstring \<Rightarrow> (jstring \<times> jstring option \<times> jstring) list" where
  "matchHere inp =
     [(st, ph, body).
        (st, ph, r1) \<leftarrow> openTag inp,
        (body, r2) \<leftarrow> starLazy (\<lambda>c. True) r1,
        r3 \<leftarrow> lit (js ''</pearbot>'') r2]"

text \<open>
  \<open>match\<close> with a pattern that is not global: the start positions are tried from the
  left, and the first position with a match gives the result.
\<close>

fun exec :: "jstring \<Rightarrow> (jstring \<times> jstring option \<times> jstring) option" where
  "exec [] = (case matchHere [] of [] \<Rightarrow> None | m # _ \<Rightarrow> Some m)"
| "exec (c # cs) = (case matchHere (c # cs) of [] \<Rightarrow> exec cs | m # _ \<Rightarrow> Some m)"

text \<open>\<open>match[2] || undefined\<close> drops an empty phase; the content is trimmed.\<close>

definition parseNotification :: "jstring \<Rightarrow> ProjectNotification option" where
  "parseNotification text =
     (case exec text of
        None \<Rightarrow> None
      | Some (m1, m2, m3) \<Rightarrow> Some \<lparr> nstatus = m1, phase = orNull m2, content = trim m3 \<rparr>)"

subsection \<open>The annotation as the specification words it\<close>

text \<open>
  The specification describes an annotation as a tagged span carrying a required status
  keyword, an optional phase keyword, and enclosed free text. \<open>taggedSpan span st ph body\<close>
  says that \<open>span\<close> is such a span with status \<open>st\<close>, phase \<open>ph\<close> and enclosed text \<open>body\<close>;
  \<open>containsSpan\<close> says that a text contains one. These follow the specification, not the
  code, and are compared with \<open>parseNotification\<close> below.
\<close>

definition phaseAttr :: "jstring \<Rightarrow> jstring option \<Rightarrow> bool" where
  "phaseAttr attr ph \<longleftrightarrow>
     (case ph of
        None \<Rightarrow> attr = []
      | Some p \<Rightarrow>
          (\<exists>ws. ws \<noteq> [] \<and> list_all isSpace ws \<and> 0x22 \<notin> set p
                \<and> attr = ws @ js ''phase='' @ [0x22] @ p @ [0x22]))"

definition taggedSpan :: "jstring \<Rightarrow> jstring \<Rightarrow> jstring option \<Rightarrow> jstring \<Rightarrow> bool" where
  "taggedSpan span st ph body \<longleftrightarrow>
     (\<exists>ws attr. ws \<noteq> [] \<and> list_all isSpace ws \<and> st \<noteq> [] \<and> list_all isWord st
        \<and> phaseAttr attr ph
        \<and> span = js ''<pearbot'' @ ws @ js ''status='' @ [0x22] @ st @ [0x22] @ attr
                   @ js ''>'' @ body @ js ''</pearbot>'')"

definition containsSpan :: "jstring \<Rightarrow> bool" where
  "containsSpan text \<longleftrightarrow>
     (\<exists>pre span post st ph body. text = pre @ span @ post \<and> taggedSpan span st ph body)"

section \<open>Events\<close>

text \<open>
  The manager runs on one thread: between two suspension points its code runs to
  completion, and what happens next is chosen by the callers and by the environment. An
  event is one such step: a public operation (\<open>createProject\<close> and \<open>openProject\<close> up to
  the delay of \<open>spawnAgent\<close>, the code after that delay, \<open>serveProject\<close> in its two halves
  around its startup race), an annotation read from an agent's output, the exit of a
  subprocess (which runs the callback registered for it, once), a tick of the stall
  sweep, or shutdown. \<open>run\<close> plays a sequence of events from a state.
\<close>

datatype event =
  Create string string "string option" string string bool
  | Open string string string bool
  | AgentSettle proc string
  | Reply string string string
  | Stop string string
  | ServeLaunch string "string option" "nat \<Rightarrow> bool" bool
  | ServeSettle proc "int option" string
  | AgentExit proc int string
  | ServerExit proc int string
  | Annotation string ProjectNotification string
  | StallSweep int string
  | StopAll

fun fire ::
  "(string \<Rightarrow> string) \<Rightarrow> (string \<Rightarrow> string) \<Rightarrow> (string \<Rightarrow> int option) \<Rightarrow> event
     \<Rightarrow> PearBotManager \<Rightarrow> PearBotManager" where
  "fire root detect getTime (Create nm descr ts projectId now spawnOk) m =
     snd (createProjectLaunch nm descr ts projectId now spawnOk m)"
| "fire root detect getTime (Open projectId task now spawnOk) m =
     snd (openProjectLaunch projectId task now spawnOk m)"
| "fire root detect getTime (AgentSettle pr now) m =
     spawnAgentSettle pr now m"
| "fire root detect getTime (Reply projectId message now) m =
     snd (sendToProject projectId message now m)"
| "fire root detect getTime (Stop projectId now) m =
     snd (stopProject projectId now m)"
| "fire root detect getTime (ServeLaunch projectId command testPort spawnOk) m =
     snd (serveLaunch projectId command testPort root detect spawnOk m)"
| "fire root detect getTime (ServeSettle pr earlyExit now) m =
     snd (serveSettle pr earlyExit now m)"
| "fire root detect getTime (AgentExit pr exitCode now) m =
     (case agentExitCallbacks m pr of
        None \<Rightarrow> m
      | Some projectId \<Rightarrow>
          agentExited projectId exitCode now
            (m\<lparr>agentExitCallbacks := (agentExitCallbacks m)(pr := None)\<rparr>))"
| "fire root detect getTime (ServerExit pr exitCode now) m =
     (case serverExitCallbacks m pr of
        None \<Rightarrow> m
      | Some (projectId, port) \<Rightarrow>
          serverExited projectId port exitCode now
            (m\<lparr>serverExitCallbacks := (serverExitCallbacks m)(pr := None)\<rparr>))"
| "fire root detect getTime (Annotation projectId notification now) m =
     applyNotification projectId notification now m"
| "fire root detect getTime (StallSweep nowMs now) m =
     stalledCheck nowMs getTime now m"
| "fire root detect getTime StopAll m = stopAll m"

definition run ::
  "(string \<Rightarrow> string) \<Rightarrow> (string \<Rightarrow> string) \<Rightarrow> (string \<Rightarrow> int option) \<Rightarrow> event list
     \<Rightarrow> PearBotManager \<Rightarrow> PearBotManager" where
  "run root detect getTime events m = fold (fire root detect getTime) events m"

section \<open>Example states\<close>

definition exampleProject :: "ProjectStatus \<Rightarrow> ProjectMetadata" where
  "exampleProject st =
     \<lparr> id' = ''proj_1'', name = ''demo'', description = ''a demo'', techStack = None,
       status = st, directory = ''projects/proj_1'',
       createdAt = ''2025-01-01T00:00:00.000Z'', updatedAt = ''2025-01-01T00:59:00.000Z'',
       waitingSince = None, lastNotification = None, servingPort = None,
       serverProcess = None, agentProcess = None, sessionId = None, outputBuffer = [] \<rparr>"

definition exampleManager :: "ProjectStatus \<Rightarrow> (string \<rightharpoonup> proc) \<Rightarrow> PearBotManager" where
  "exampleManager st agents =
     (newManager ''projects'' (Some 4000) (Some 4001) (Some 1) None)
       \<lparr>projects := [(''proj_1'', exampleProject st)], agentProcesses := agents, spawnCount := 1\<rparr>"

definition clarifyExample :: ProjectNotification where
  "clarifyExample = \<lparr> nstatus = js ''clarify'', phase = None, content = js ''Which database?'' \<rparr>"


definition exampleRow :: "string \<Rightarrow> ProjectStatus \<Rightarrow> row" where
  "exampleRow k st = toRow ((exampleProject st)\<lparr>id' := k\<rparr>)"

definition exampleGetTime :: "string \<Rightarrow> int option" where
  "exampleGetTime s = (if s = ''2025-01-01T00:00:00.000Z'' then Some 1735689600000 else None)"

text \<open>
  Two completed projects loaded at startup, and a sequence of events on them: the first
  project is served (process 0, port 4000) and served again; the second call kills
  process 0, releases the port, is given port 4000 again and launches process 1; the exit
  of the killed process 0 is then observed, and the second call's startup window passes.
\<close>

definition staleExitStart :: PearBotManager where
  "staleExitStart =
     init [exampleRow ''proj_1'' completed, exampleRow ''proj_2'' completed]
       (newManager ''projects'' (Some 4000) (Some 4001) None None)"

definition staleExitTrace :: "event list" where
  "staleExitTrace =
     [ServeLaunch ''proj_1'' None (\<lambda>port. True) True,
      ServeSettle 0 None ''2025-01-01T02:00:03.000Z'',
      ServeLaunch ''proj_1'' None (\<lambda>port. True) True,
      ServerExit 0 143 ''2025-01-01T02:00:05.000Z'',
      ServeSettle 1 None ''2025-01-01T02:00:07.000Z'']"

definition staleExitState :: PearBotManager where
  "staleExitState =
     run (\<lambda>d. d) (\<lambda>d. ''npm start'') exampleGetTime staleExitTrace staleExitStart"

text \<open>
  The first of the two projects is opened (agent process 0) and its delay passes:
  \<open>agentBuildingState\<close>. There the agent asks a question (\<open>agentWaitingState\<close>) and then
  exits with code 1 (\<open>agentGoneState\<close>).
\<close>

definition agentBuildingState :: PearBotManager where
  "agentBuildingState =
     run (\<lambda>d. d) (\<lambda>d. ''npm start'') exampleGetTime
       [Open ''proj_1'' ''add a login page'' ''2025-01-01T02:00:00.000Z'' True,
        AgentSettle 0 ''2025-01-01T02:00:02.000Z'']
       staleExitStart"

definition agentWaitingState :: PearBotManager where
  "agentWaitingState =
     run (\<lambda>d. d) (\<lambda>d. ''npm start'') exampleGetTime
       [Annotation ''proj_1'' clarifyExample ''2025-01-01T02:05:00.000Z'']
       agentBuildingState"

definition agentGoneState :: PearBotManager where
  "agentGoneState =
     run (\<lambda>d. d) (\<lambda>d. ''npm start'') exampleGetTime
       [AgentExit 0 1 ''2025-01-01T02:06:00.000Z'']
       agentWaitingState"

text \<open>
  From \<open>agentBuildingState\<close> the project is opened again: the call kills agent process 0
  and launches agent process 1; the exit of the killed process 0 is observed during the
  call's delay (code 143), and the delay passes: \<open>staleAgentExitState\<close>. There agent
  process 1 asks a question: \<open>staleAgentWaitingState\<close>.
\<close>

definition staleAgentExitState :: PearBotManager where
  "staleAgentExitState =
     run (\<lambda>d. d) (\<lambda>d. ''npm start'') exampleGetTime
       [Open ''proj_1'' ''add tests'' ''2025-01-01T02:10:00.000Z'' True,
        AgentExit 0 143 ''2025-01-01T02:10:01.000Z'',
        AgentSettle 1 ''2025-01-01T02:10:02.000Z'']
       agentBuildingState"

definition staleAgentWaitingState :: PearBotManager where
  "staleAgentWaitingState =
     run (\<lambda>d. d) (\<lambda>d. ''npm start'') exampleGetTime
       [Annotation ''proj_1'' clarifyExample ''2025-01-01T02:15:00.000Z'']
       staleAgentExitState"

text \<open>
  A stream of two lines and a fragment, cut inside the first line and inside a two-byte
  character of the second; and two text blocks, one with two annotations and one whose
  closing tag is cut short.
\<close>

definition exampleChunks :: "byte list list" where
  "exampleChunks = [[0x7B], [0x7D, 0x0A, 0x22, 0xC3], [0xA9, 0x22, 0x0A, 0x78]]"

definition exampleText :: jstring where
  "exampleText =
     js ''ok <pearbot status='' @ [0x22] @ js ''progress'' @ [0x22] @ js '' phase=''
     @ [0x22] @ js ''coding'' @ [0x22] @ js ''> API done </pearbot> x <pearbot status=''
     @ [0x22] @ js ''success'' @ [0x22] @ js ''>all</pearbot>''"

definition unterminatedText :: jstring where
  "unterminatedText =
     js ''<pearbot status='' @ [0x22] @ js ''clarify'' @ [0x22] @ js ''>Which one? </pearbot''"

section \<open>Properties\<close>

subsection \<open>Frame lemmas\<close>

lemma getProject_setProject:
  "getProject (setProject k p m) k' = (if k' = k then Some p else getProject m k')"
  by (simp add: getProject_def setProject_def AList.update_conv')

lemma getProject_mutate:
  "getProject (mutate k f m) k' = (if k' = k then map_option f (getProject m k) else getProject m k')"
  by (simp add: mutate_def getProject_setProject split: option.splits)

lemma mutate_fields [simp]:
  "agentProcesses (mutate k f m) = agentProcesses m"
  "serverProcesses (mutate k f m) = serverProcesses m"
  "allocatedPorts (mutate k f m) = allocatedPorts m"
  "db (mutate k f m) = db m"
  "killed (mutate k f m) = killed m"
  "notifications (mutate k f m) = notifications m"
  "maxConcurrentBuilds (mutate k f m) = maxConcurrentBuilds m"
  "servePending (mutate k f m) = servePending m"
  "spawnPending (mutate k f m) = spawnPending m"
  "spawnCount (mutate k f m) = spawnCount m"
  by (simp_all add: mutate_def setProject_def split: option.splits)

lemma save_fields [simp]:
  "agentProcesses (save k m) = agentProcesses m"
  "serverProcesses (save k m) = serverProcesses m"
  "allocatedPorts (save k m) = allocatedPorts m"
  "projects (save k m) = projects m"
  "killed (save k m) = killed m"
  "notifications (save k m) = notifications m"
  "maxConcurrentBuilds (save k m) = maxConcurrentBuilds m"
  "servePending (save k m) = servePending m"
  "spawnPending (save k m) = spawnPending m"
  "spawnCount (save k m) = spawnCount m"
  by (simp_all add: save_def saveProject_def split: option.splits)

lemma getProject_save [simp]: "getProject (save k m) k' = getProject m k'"
  by (simp add: getProject_def)

lemma db_save:
  "getProject m k = Some p \<Longrightarrow> db (save k m) = (db m)(id' p \<mapsto> toRow p)"
  by (simp add: save_def saveProject_def)

lemma getProject_upd [simp]:
  "getProject (m\<lparr>agentProcesses := a\<rparr>) = getProject m"
  "getProject (m\<lparr>serverProcesses := s\<rparr>) = getProject m"
  "getProject (m\<lparr>allocatedPorts := ps\<rparr>) = getProject m"
  "getProject (m\<lparr>killed := ks\<rparr>) = getProject m"
  "getProject (m\<lparr>stdinWrites := w\<rparr>) = getProject m"
  "getProject (m\<lparr>notifications := ns\<rparr>) = getProject m"
  "getProject (m\<lparr>servePending := sp\<rparr>) = getProject m"
  "getProject (m\<lparr>spawnPending := ap\<rparr>) = getProject m"
  "getProject (m\<lparr>serverExitCallbacks := sc\<rparr>) = getProject m"
  "getProject (m\<lparr>agentExitCallbacks := ac\<rparr>) = getProject m"
  "getProject (m\<lparr>spawnCount := n\<rparr>) = getProject m"
  "getProject (m\<lparr>db := d\<rparr>) = getProject m"
  by (simp_all add: getProject_def fun_eq_iff)

lemma getProject_killAgentProcess:
  "getProject (killAgentProcess k m) k' =
     (if k' = k then map_option (\<lambda>p. p\<lparr>agentProcess := None\<rparr>) (getProject m k) else getProject m k')"
  by (simp add: killAgentProcess_def Let_def getProject_mutate split: option.splits)

lemma getProject_killServerProcess:
  "getProject (killServerProcess k m) k' =
     (if k' = k then map_option (\<lambda>p. p\<lparr>servingPort := None, serverProcess := None\<rparr>) (getProject m k)
      else getProject m k')"
  by (auto simp add: killServerProcess_def Let_def getProject_mutate split: option.splits)

text \<open>An assignment that keeps a record's status keeps the number of running projects.\<close>

lemma count_update_same:
  assumes "map_of al k = Some p" and "Q p' = Q p"
  shows "length (filter (\<lambda>(k, p). Q p) (AList.update k p' al)) = length (filter (\<lambda>(k, p). Q p) al)"
  using assms by (induction al) (auto split: if_splits)

lemma getRunningCount_mutate_same:
  assumes "\<And>p. status (f p) = status p"
  shows "getRunningCount (mutate k f m) = getRunningCount m"
proof (cases "getProject m k")
  case None
  then show ?thesis by (simp add: mutate_def)
next
  case (Some p)
  then have "map_of (projects m) k = Some p" by (simp add: getProject_def)
  from count_update_same[OF this, of "\<lambda>p. status p = building \<or> status p = creating" "f p"] Some
  show ?thesis by (simp add: getRunningCount_def mutate_def setProject_def assms)
qed

lemma getRunningCount_upd [simp]:
  "getRunningCount (m\<lparr>killed := ks, agentProcesses := a\<rparr>) = getRunningCount m"
  by (simp add: getRunningCount_def)

lemma getRunningCount_killAgentProcess:
  "getRunningCount (killAgentProcess k m) = getRunningCount m"
  by (simp add: killAgentProcess_def Let_def getRunningCount_mutate_same split: option.splits)

lemma maxConcurrentBuilds_killAgentProcess [simp]:
  "maxConcurrentBuilds (killAgentProcess k m) = maxConcurrentBuilds m"
  by (simp add: killAgentProcess_def Let_def split: option.splits)

lemmas example_defs = exampleManager_def exampleProject_def newManager_def getProject_def
  settingOr_def orNullNum_def orNull_def


subsection \<open>The agent example states\<close>

lemmas agent_run_defs = run_def staleExitStart_def init_def exampleRow_def exampleProject_def
  toRow_def loadRow_def newManager_def settingOr_def orNull_def orNullNum_def setProject_def
  openProjectLaunch_def spawnAgentLaunch_def spawnAgentSettle_def agentExited_def
  killAgentProcess_def mutate_def save_def saveProject_def getProject_def getRunningCount_def
  applyNotification_def emitNotification_def clarifyExample_def Let_def

lemma agentBuildingState_facts:
  "map_option status (getProject agentBuildingState ''proj_1'') = Some building"
  "agentProcesses agentBuildingState ''proj_1'' = Some 0"
  "agentExitCallbacks agentBuildingState 0 = Some ''proj_1''"
  "killed agentBuildingState = []"
  by (simp_all add: agentBuildingState_def agent_run_defs)

lemma agentWaitingState_facts:
  "map_option status (getProject agentWaitingState ''proj_1'') = Some waiting_for_input"
  "map_option waitingSince (getProject agentWaitingState ''proj_1'')
     = Some (Some ''2025-01-01T02:05:00.000Z'')"
  "agentProcesses agentWaitingState ''proj_1'' = Some 0"
  by (simp_all add: agentWaitingState_def agentBuildingState_def agent_run_defs js_def)

lemma agentGoneState_facts:
  "map_option status (getProject agentGoneState ''proj_1'') = Some waiting_for_input"
  "map_option waitingSince (getProject agentGoneState ''proj_1'')
     = Some (Some ''2025-01-01T02:05:00.000Z'')"
  "agentProcesses agentGoneState ''proj_1'' = None"
  "agentExitCallbacks agentGoneState 0 = None"
  by (simp_all add: agentGoneState_def agentWaitingState_def agentBuildingState_def
      agent_run_defs js_def)

lemma staleAgentExitState_facts:
  "map_option status (getProject staleAgentExitState ''proj_1'') = Some building"
  "agentProcesses staleAgentExitState ''proj_1'' = None"
  "agentExitCallbacks staleAgentExitState 1 = Some ''proj_1''"
  "agentExitCallbacks staleAgentExitState 0 = None"
  "killed staleAgentExitState = [0]"
  "spawnCount staleAgentExitState = 2"
  "serverProcesses staleAgentExitState ''proj_1'' = None"
  by (simp_all add: staleAgentExitState_def agentBuildingState_def agent_run_defs)

lemma staleAgentWaitingState_facts:
  "map_option status (getProject staleAgentWaitingState ''proj_1'') = Some waiting_for_input"
  "map_option waitingSince (getProject staleAgentWaitingState ''proj_1'')
     = Some (Some ''2025-01-01T02:15:00.000Z'')"
  "agentProcesses staleAgentWaitingState ''proj_1'' = None"
  by (simp_all add: staleAgentWaitingState_def staleAgentExitState_def agentBuildingState_def
      agent_run_defs js_def)

subsection \<open>Clarify, then reply\<close>

text \<open>
  Claim C3. For a project in status \<open>building\<close>, applying an annotation whose status is
  \<open>clarify\<close> leaves the project in \<open>waiting_for_input\<close> with a waiting-since timestamp
  (the time of the annotation). \<open>sendToProject\<close> has a guard on the process table: a
  reply that follows while an agent process is registered for the project returns
  \<open>building\<close> and leaves the project in \<open>building\<close> with waiting-since cleared; with no
  agent process registered the reply throws and changes nothing.
\<close>

theorem clarify_then_reply:
  assumes "getProject m projectId = Some p"
    and "status p = building"
    and "nstatus n = js ''clarify''"
  shows "\<exists>p1. getProject (applyNotification projectId n now m) projectId = Some p1
           \<and> status p1 = waiting_for_input
           \<and> waitingSince p1 = Some now
           \<and> waitingSince p1 \<noteq> None
           \<and> (\<forall>pr. agentProcesses m projectId = Some pr \<longrightarrow>
                (\<exists>m2 p2. sendToProject projectId message now'
                             (applyNotification projectId n now m) = (Inr building, m2)
                   \<and> getProject m2 projectId = Some p2
                   \<and> status p2 = building
                   \<and> waitingSince p2 = None))
           \<and> (agentProcesses m projectId = None \<longrightarrow>
                sendToProject projectId message now' (applyNotification projectId n now m)
                  = (Inl (NoLiveAgent projectId), applyNotification projectId n now m))"
proof -
  have ne: "js ''clarify'' \<noteq> js ''success''" "js ''clarify'' \<noteq> js ''failed''"
    by (simp_all add: js_def)
  show ?thesis using assms ne
    by (auto simp add: applyNotification_def sendToProject_def Let_def emitNotification_def
          getProject_mutate)
qed

theorem clarify_then_reply_witness:
  "getProject (exampleManager building [''proj_1'' \<mapsto> 0]) ''proj_1'' = Some (exampleProject building)
   \<and> status (exampleProject building) = building
   \<and> nstatus clarifyExample = js ''clarify''
   \<and> agentProcesses (exampleManager building [''proj_1'' \<mapsto> 0]) ''proj_1'' = Some 0
   \<and> (\<exists>p1. getProject (applyNotification ''proj_1'' clarifyExample ''t1''
                  (exampleManager building [''proj_1'' \<mapsto> 0])) ''proj_1'' = Some p1
           \<and> status p1 = waiting_for_input \<and> waitingSince p1 = Some ''t1'')
   \<and> (\<exists>m2 p2. sendToProject ''proj_1'' ''PostgreSQL'' ''t2''
                  (applyNotification ''proj_1'' clarifyExample ''t1''
                     (exampleManager building [''proj_1'' \<mapsto> 0])) = (Inr building, m2)
           \<and> getProject m2 ''proj_1'' = Some p2 \<and> status p2 = building \<and> waitingSince p2 = None)
   \<and> getProject (exampleManager building Map.empty) ''proj_1'' = Some (exampleProject building)
   \<and> agentProcesses (exampleManager building Map.empty) ''proj_1'' = None
   \<and> sendToProject ''proj_1'' ''PostgreSQL'' ''t2''
        (applyNotification ''proj_1'' clarifyExample ''t1'' (exampleManager building Map.empty))
      = (Inl (NoLiveAgent ''proj_1''),
         applyNotification ''proj_1'' clarifyExample ''t1'' (exampleManager building Map.empty))"
proof -
  have h1: "getProject (exampleManager building [''proj_1'' \<mapsto> 0]) ''proj_1''
              = Some (exampleProject building)"
    "getProject (exampleManager building Map.empty) ''proj_1'' = Some (exampleProject building)"
    by (simp_all add: example_defs)
  have h2: "status (exampleProject building) = building"
    by (simp add: exampleProject_def)
  have h3: "nstatus clarifyExample = js ''clarify''"
    by (simp add: clarifyExample_def)
  have h4: "agentProcesses (exampleManager building [''proj_1'' \<mapsto> 0]) ''proj_1'' = Some 0"
    "agentProcesses (exampleManager building Map.empty) ''proj_1'' = None"
    by (simp_all add: exampleManager_def)
  from clarify_then_reply[OF h1(1) h2 h3, of "''t1''" "''PostgreSQL''" "''t2''"]
    clarify_then_reply[OF h1(2) h2 h3, of "''t1''" "''PostgreSQL''" "''t2''"]
    h1 h2 h3 h4
  show ?thesis by blast
qed

lemma sendToProject_unregistered:
  assumes "map_option status (getProject m k) = Some st"
    and "agentProcesses m k = None"
  shows "sendToProject k message now m = (Inl (NoLiveAgent k), m)"
  using assms by (auto simp add: sendToProject_def split: option.splits)

text \<open>
  Without the condition on the process table the second half fails. In \<open>agentGoneState\<close>
  the agent of a building project asked its question and then exited: the exit callback
  leaves a project that waits for input in that status and removes the table entry, and
  the reply is refused. In \<open>staleAgentWaitingState\<close> the question comes from agent process
  1, which is running (its exit callback is still registered and no \<open>kill()\<close> was issued
  to it), but whose table entry the exit callback of the killed process 0 has removed:
  the reply is refused there too, directly after the annotation.
\<close>

theorem reply_refused_without_registered_agent:
  "map_option status (getProject agentBuildingState ''proj_1'') = Some building
   \<and> map_option status (getProject agentWaitingState ''proj_1'') = Some waiting_for_input
   \<and> agentProcesses agentGoneState ''proj_1'' = None
   \<and> sendToProject ''proj_1'' ''PostgreSQL'' ''2025-01-01T02:07:00.000Z'' agentGoneState
        = (Inl (NoLiveAgent ''proj_1''), agentGoneState)
   \<and> map_option status (getProject agentGoneState ''proj_1'') = Some waiting_for_input
   \<and> map_option waitingSince (getProject agentGoneState ''proj_1'')
        = Some (Some ''2025-01-01T02:05:00.000Z'')
   \<and> map_option status (getProject staleAgentExitState ''proj_1'') = Some building
   \<and> agentExitCallbacks staleAgentExitState 1 = Some ''proj_1''
   \<and> killed staleAgentExitState = [0]
   \<and> map_option status (getProject staleAgentWaitingState ''proj_1'') = Some waiting_for_input
   \<and> sendToProject ''proj_1'' ''PostgreSQL'' ''2025-01-01T02:16:00.000Z'' staleAgentWaitingState
        = (Inl (NoLiveAgent ''proj_1''), staleAgentWaitingState)"
  using agentBuildingState_facts agentWaitingState_facts agentGoneState_facts
    staleAgentExitState_facts staleAgentWaitingState_facts
    sendToProject_unregistered[OF agentGoneState_facts(1) agentGoneState_facts(3)]
    sendToProject_unregistered[OF staleAgentWaitingState_facts(1) staleAgentWaitingState_facts(3)]
  by simp

subsection \<open>Agent exit\<close>

text \<open>
  Claim C4. When the agent process of a project in status \<open>building\<close> or \<open>creating\<close>
  exits, exit code 0 sets the status to \<open>completed\<close> and every other exit code sets it
  to \<open>failed\<close>. In both cases the project's entry in the process table is removed, the
  record's agent-process field is cleared, and the updated record is written to the store.
\<close>

theorem agent_exit_completes_or_fails:
  assumes "getProject m projectId = Some p"
    and "status p = building \<or> status p = creating"
  shows "\<exists>p'. getProject (agentExited projectId exitCode now m) projectId = Some p'
           \<and> status p' = (if exitCode = 0 then completed else failed)
           \<and> agentProcesses (agentExited projectId exitCode now m) projectId = None
           \<and> agentProcess p' = None
           \<and> db (agentExited projectId exitCode now m) (id' p') = Some (toRow p')"
  using assms
  by (auto simp add: agentExited_def Let_def getProject_mutate db_save)

theorem agent_exit_completes_or_fails_witness:
  "getProject (exampleManager building [''proj_1'' \<mapsto> 0]) ''proj_1'' = Some (exampleProject building)
   \<and> status (exampleProject building) = building
   \<and> (\<exists>p'. getProject (agentExited ''proj_1'' 0 ''t1'' (exampleManager building [''proj_1'' \<mapsto> 0]))
               ''proj_1'' = Some p'
           \<and> status p' = completed)
   \<and> (\<exists>p'. getProject (agentExited ''proj_1'' 7 ''t1'' (exampleManager building [''proj_1'' \<mapsto> 0]))
               ''proj_1'' = Some p'
           \<and> status p' = failed
           \<and> agentProcesses (agentExited ''proj_1'' 7 ''t1'' (exampleManager building [''proj_1'' \<mapsto> 0]))
                ''proj_1'' = None
           \<and> agentProcess p' = None
           \<and> db (agentExited ''proj_1'' 7 ''t1'' (exampleManager building [''proj_1'' \<mapsto> 0])) (id' p')
                = Some (toRow p'))"
proof -
  have h1: "getProject (exampleManager building [''proj_1'' \<mapsto> 0]) ''proj_1''
              = Some (exampleProject building)"
    by (simp add: example_defs)
  have h2: "status (exampleProject building) = building"
    by (simp add: exampleProject_def)
  have h2': "status (exampleProject building) = building \<or> status (exampleProject building) = creating"
    using h2 by simp
  from agent_exit_completes_or_fails[OF h1 h2', of 0 "''t1''"]
    agent_exit_completes_or_fails[OF h1 h2', of 7 "''t1''"] h1 h2
  show ?thesis by auto
qed

subsection \<open>Capacity admission\<close>

lemma example_counts:
  "getRunningCount (exampleManager building a) = 1"
  "getRunningCount (exampleManager completed a) = 0"
  "maxConcurrentBuilds (exampleManager st a) = 1"
  by (simp_all add: getRunningCount_def exampleManager_def exampleProject_def newManager_def
      settingOr_def orNullNum_def)

text \<open>
  Claim C5. \<open>createProject\<close> fails with the capacity error exactly when the number of
  projects in status \<open>creating\<close> or \<open>building\<close> has reached \<open>maxConcurrentBuilds\<close>; in
  particular it fails when the two are equal, and when the count is one below the
  maximum (and the agent program starts) it returns the new project. \<open>openProject\<close> on a
  known project applies the same admission test.
\<close>

theorem capacity_admission:
  "((\<exists>n. fst (createProject nm descr ts projectId now spawnOk settled m) = Inl (CapacityExceeded n))
      \<longleftrightarrow> maxConcurrentBuilds m \<le> getRunningCount m)
   \<and> (getRunningCount m = maxConcurrentBuilds m \<longrightarrow>
        createProject nm descr ts projectId now spawnOk settled m
          = (Inl (CapacityExceeded (maxConcurrentBuilds m)), m))
   \<and> (Suc (getRunningCount m) = maxConcurrentBuilds m \<and> spawnOk \<longrightarrow>
        fst (createProject nm descr ts projectId now spawnOk settled m) = Inr (projectId, creating))
   \<and> (getProject m openId \<noteq> None \<longrightarrow>
        ((\<exists>n. fst (openProject openId task now spawnOk settled m) = Inl (CapacityExceeded n))
           \<longleftrightarrow> maxConcurrentBuilds m \<le> getRunningCount m)
        \<and> (Suc (getRunningCount m) = maxConcurrentBuilds m \<and> spawnOk \<longrightarrow>
             fst (openProject openId task now spawnOk settled m) = Inr building))"
proof -
  have create_fail: "maxConcurrentBuilds m \<le> getRunningCount m \<Longrightarrow>
      createProject nm descr ts projectId now spawnOk settled m
        = (Inl (CapacityExceeded (maxConcurrentBuilds m)), m)"
    by (simp add: createProject_def createProjectLaunch_def Let_def)
  have create_pass: "\<not> maxConcurrentBuilds m \<le> getRunningCount m \<Longrightarrow>
      fst (createProject nm descr ts projectId now spawnOk settled m)
        = (if spawnOk then Inr (projectId, creating) else Inl SpawnError)"
    by (simp add: createProject_def createProjectLaunch_def Let_def spawnAgentLaunch_def
        getProject_setProject saveProject_def getProject_def[symmetric])
  have open_fail: "getProject m openId \<noteq> None \<Longrightarrow> maxConcurrentBuilds m \<le> getRunningCount m \<Longrightarrow>
      \<exists>n. fst (openProject openId task now spawnOk settled m) = Inl (CapacityExceeded n)"
    by (auto simp add: openProject_def openProjectLaunch_def Let_def
        getRunningCount_killAgentProcess)
  have open_pass: "getProject m openId \<noteq> None \<Longrightarrow> \<not> maxConcurrentBuilds m \<le> getRunningCount m \<Longrightarrow>
      fst (openProject openId task now spawnOk settled m)
        = (if spawnOk then Inr building else Inl SpawnError)"
    by (auto simp add: openProject_def openProjectLaunch_def Let_def
        getRunningCount_killAgentProcess spawnAgentLaunch_def
        getProject_mutate getProject_killAgentProcess)
  show ?thesis
    using create_fail create_pass open_fail open_pass
    by (cases "maxConcurrentBuilds m \<le> getRunningCount m") auto
qed

theorem capacity_admission_witness:
  "getRunningCount (exampleManager building [''proj_1'' \<mapsto> 0])
     = maxConcurrentBuilds (exampleManager building [''proj_1'' \<mapsto> 0])
   \<and> createProject ''shop'' ''a web shop'' None ''proj_2'' ''t1'' True ''t2''
        (exampleManager building [''proj_1'' \<mapsto> 0])
      = (Inl (CapacityExceeded 1), exampleManager building [''proj_1'' \<mapsto> 0])
   \<and> (\<exists>n. fst (openProject ''proj_1'' ''add tests'' ''t1'' True ''t2''
                 (exampleManager building [''proj_1'' \<mapsto> 0])) = Inl (CapacityExceeded n))
   \<and> Suc (getRunningCount (exampleManager completed Map.empty))
     = maxConcurrentBuilds (exampleManager completed Map.empty)
   \<and> fst (createProject ''shop'' ''a web shop'' None ''proj_2'' ''t1'' True ''t2''
        (exampleManager completed Map.empty)) = Inr (''proj_2'', creating)
   \<and> fst (openProject ''proj_1'' ''add tests'' ''t1'' True ''t2''
        (exampleManager completed Map.empty)) = Inr building"
proof -
  let ?full = "exampleManager building [''proj_1'' \<mapsto> 0]"
  let ?idle = "exampleManager completed Map.empty"
  have k: "getProject ?full ''proj_1'' \<noteq> None" "getProject ?idle ''proj_1'' \<noteq> None"
    by (simp_all add: example_defs)
  from capacity_admission[of "''shop''" "''a web shop''" None "''proj_2''" "''t1''" True "''t2''"
      ?full "''proj_1''" "''add tests''"]
    capacity_admission[of "''shop''" "''a web shop''" None "''proj_2''" "''t1''" True "''t2''"
      ?idle "''proj_1''" "''add tests''"] k
  show ?thesis by (simp add: example_counts)
qed

subsection \<open>Serve: failure at startup\<close>

lemma serveLaunch_Inr:
  assumes "serveLaunch projectId command testPort root detect spawnOk m = (Inr pr, m1)"
  shows "\<exists>port p. getProject m projectId = Some p
           \<and> findAvailablePort testPort (killServerProcess projectId m) = Some port
           \<and> servePending m1 pr
                = Some (projectId, port,
                        (case orNull command of Some c \<Rightarrow> c | None \<Rightarrow> detect (root (directory p))),
                        root (directory p))
           \<and> port \<in> allocatedPorts m1
           \<and> serverProcesses m1 projectId = Some pr
           \<and> getProject m1 projectId \<noteq> None"
  using assms
  by (auto simp add: serveLaunch_def Let_def getProject_killServerProcess
        split: option.splits if_splits)

lemma serveSettle_early:
  assumes "servePending m1 pr = Some (projectId, port, cmd, dir)"
    and "getProject m1 projectId = Some p1"
  shows "\<exists>m2 p2. serveSettle pr (Some code) now m1 = (Some (Inl (ServeStartupFailure code cmd dir)), m2)
           \<and> getProject m2 projectId = Some p2
           \<and> status p2 = failed
           \<and> port \<notin> allocatedPorts m2
           \<and> serverProcesses m2 projectId = None
           \<and> servePending m2 pr = None"
  using assms
  by (simp add: serveSettle_def Let_def getProject_mutate)

text \<open>
  Claim C6. If the command \<open>serveProject\<close> launched exits within the startup window
  (whatever its exit code), the call fails with the startup error carrying that exit
  code, the command attempted and its directory; afterwards the project's status is
  \<open>failed\<close> (so not \<open>serving\<close>), the port allocated for the call is no longer reserved,
  and the project has no entry in the preview-process table.
\<close>

theorem serve_startup_failure:
  assumes "serveLaunch projectId command testPort findProjectRoot detectServeCommand spawnOk m
             = (Inr pr, m1)"
  shows "\<exists>port cmd dir m2 p p2.
           getProject m projectId = Some p
           \<and> servePending m1 pr = Some (projectId, port, cmd, dir)
           \<and> cmd = (case orNull command of Some c \<Rightarrow> c
                    | None \<Rightarrow> detectServeCommand (findProjectRoot (directory p)))
           \<and> port \<in> allocatedPorts m1
           \<and> serveSettle pr (Some code) now m1
                = (Some (Inl (ServeStartupFailure code cmd dir)), m2)
           \<and> serveProject projectId command testPort findProjectRoot detectServeCommand spawnOk
                (Some code) now m
                = (Inl (ServeStartupFailure code cmd dir), m2)
           \<and> getProject m2 projectId = Some p2
           \<and> status p2 \<noteq> serving
           \<and> port \<notin> allocatedPorts m2
           \<and> serverProcesses m2 projectId = None"
proof -
  from serveLaunch_Inr[OF assms] obtain port p p1 where
    a: "getProject m projectId = Some p"
    and b: "servePending m1 pr = Some (projectId, port,
              (case orNull command of Some c \<Rightarrow> c
               | None \<Rightarrow> detectServeCommand (findProjectRoot (directory p))),
              findProjectRoot (directory p))"
    and c: "port \<in> allocatedPorts m1"
    and d: "getProject m1 projectId = Some p1"
    by auto
  from serveSettle_early[OF b d, of code now] obtain m2 p2 where
    e: "serveSettle pr (Some code) now m1
          = (Some (Inl (ServeStartupFailure code
               (case orNull command of Some c \<Rightarrow> c
                | None \<Rightarrow> detectServeCommand (findProjectRoot (directory p)))
               (findProjectRoot (directory p)))), m2)"
    and f: "getProject m2 projectId = Some p2" "status p2 = failed"
       "port \<notin> allocatedPorts m2" "serverProcesses m2 projectId = None"
    by auto
  have g: "serveProject projectId command testPort findProjectRoot detectServeCommand spawnOk
             (Some code) now m
           = (Inl (ServeStartupFailure code
               (case orNull command of Some c \<Rightarrow> c
                | None \<Rightarrow> detectServeCommand (findProjectRoot (directory p)))
               (findProjectRoot (directory p))), m2)"
    by (simp add: serveProject_def assms e)
  show ?thesis using a b c e f g by auto
qed

theorem serve_startup_failure_witness:
  "fst (serveLaunch ''proj_1'' (Some ''./missing'') (\<lambda>port. True) (\<lambda>d. d) (\<lambda>d. ''npm start'') True
          (exampleManager completed Map.empty)) = Inr 1
   \<and> fst (serveProject ''proj_1'' (Some ''./missing'') (\<lambda>port. True) (\<lambda>d. d) (\<lambda>d. ''npm start'') True
          (Some 127) ''t1'' (exampleManager completed Map.empty))
      = Inl (ServeStartupFailure 127 ''./missing'' ''projects/proj_1'')
   \<and> (\<exists>p2. getProject (snd (serveProject ''proj_1'' (Some ''./missing'') (\<lambda>port. True) (\<lambda>d. d)
                (\<lambda>d. ''npm start'') True (Some 127) ''t1'' (exampleManager completed Map.empty)))
              ''proj_1'' = Some p2 \<and> status p2 \<noteq> serving)
   \<and> 4000 \<notin> allocatedPorts (snd (serveProject ''proj_1'' (Some ''./missing'') (\<lambda>port. True) (\<lambda>d. d)
                (\<lambda>d. ''npm start'') True (Some 127) ''t1'' (exampleManager completed Map.empty)))
   \<and> serverProcesses (snd (serveProject ''proj_1'' (Some ''./missing'') (\<lambda>port. True) (\<lambda>d. d)
                (\<lambda>d. ''npm start'') True (Some 127) ''t1'' (exampleManager completed Map.empty)))
        ''proj_1'' = None"
proof -
  let ?m = "exampleManager completed Map.empty"
  let ?launch = "serveLaunch ''proj_1'' (Some ''./missing'') (\<lambda>port. True) (\<lambda>d. d)
                   (\<lambda>d. ''npm start'') True ?m"
  have port: "findAvailablePort (\<lambda>port. True) (killServerProcess ''proj_1'' ?m) = Some 4000"
    by (simp add: findAvailablePort_def killServerProcess_def example_defs mutate_def
        setProject_def Let_def)
  have l: "fst ?launch = Inr 1"
    using port
    by (simp add: serveLaunch_def Let_def killServerProcess_def example_defs mutate_def
        setProject_def)
  have pend: "servePending (snd ?launch) 1 = Some (''proj_1'', 4000, ''./missing'', ''projects/proj_1'')"
    using port
    by (simp add: serveLaunch_def Let_def killServerProcess_def example_defs mutate_def
        setProject_def)
  have launch: "?launch = (Inr 1, snd ?launch)"
    using l by (metis prod.collapse)
  from serve_startup_failure[OF launch, of 127 "''t1''"] l pend
  show ?thesis by auto
qed

subsection \<open>Port reservation\<close>

text \<open>
  One call of the allocator scans the configured range in ascending order and returns
  the first port that is neither reserved nor refused by the bind test.
\<close>

lemma findAvailablePort_skips_reserved:
  assumes "findAvailablePort testPort m = Some port"
  shows "port \<notin> allocatedPorts m \<and> testPort port
         \<and> portRangeStart m \<le> port \<and> port \<le> portRangeEnd m
         \<and> (\<forall>q. portRangeStart m \<le> q \<and> q < port \<longrightarrow> q \<in> allocatedPorts m \<or> \<not> testPort q)"
proof -
  from assms obtain i where i: "i < length [portRangeStart m ..< Suc (portRangeEnd m)]"
    "[portRangeStart m ..< Suc (portRangeEnd m)] ! i = port"
    "port \<notin> allocatedPorts m \<and> testPort port"
    "\<forall>j<i. \<not> ([portRangeStart m ..< Suc (portRangeEnd m)] ! j \<notin> allocatedPorts m
              \<and> testPort ([portRangeStart m ..< Suc (portRangeEnd m)] ! j))"
    unfolding findAvailablePort_def find_Some_iff by blast
  from i(1) i(2) have p: "port = portRangeStart m + i" "port \<le> portRangeEnd m"
    by (simp_all del: upt_Suc)
  have "\<forall>q. portRangeStart m \<le> q \<and> q < port \<longrightarrow> q \<in> allocatedPorts m \<or> \<not> testPort q"
  proof (intro allI impI)
    fix q assume q: "portRangeStart m \<le> q \<and> q < port"
    let ?j = "q - portRangeStart m"
    from q p have j: "?j < i" by arith
    with i(1) have "[portRangeStart m ..< Suc (portRangeEnd m)] ! ?j = q"
      using q by (simp del: upt_Suc)
    with i(4) j show "q \<in> allocatedPorts m \<or> \<not> testPort q" by auto
  qed
  with i(3) p show ?thesis by simp
qed

lemmas run_defs = run_def staleExitStart_def init_def exampleRow_def exampleProject_def
  toRow_def loadRow_def newManager_def settingOr_def orNull_def orNullNum_def setProject_def
  serveLaunch_def serveSettle_def serverExited_def killServerProcess_def mutate_def save_def
  saveProject_def getProject_def findAvailablePort_def Let_def serveUrl_def

text \<open>
  Claim C7 says that in every reachable state a port assigned to a project's preview
  server is in \<open>allocatedPorts\<close> and is not returned by the allocator for a second
  project until the first releases it. The exit callback of a preview process deletes
  its port and its project's process-table entry without checking that the process is
  still the project's current one. After \<open>staleExitTrace\<close>, the callback of the killed
  process 0 has released port 4000 under the live process 1 of the same project: the
  first project is \<open>serving\<close> on port 4000, process 1 has neither exited nor been killed,
  the port is not reserved, the project has no process-table entry, and a serve call
  for the second project is given port 4000 as well.
\<close>

theorem stale_exit_callback_unreserves_live_port:
  "(\<exists>p. getProject staleExitState ''proj_1'' = Some p
        \<and> status p = serving \<and> servingPort p = Some 4000)
   \<and> killed staleExitState = [0]
   \<and> serverExitCallbacks staleExitState 1 = Some (''proj_1'', 4000)
   \<and> 4000 \<notin> allocatedPorts staleExitState
   \<and> serverProcesses staleExitState ''proj_1'' = None
   \<and> findAvailablePort (\<lambda>port. True) staleExitState = Some 4000
   \<and> (\<exists>p q. getProject
                (run (\<lambda>d. d) (\<lambda>d. ''npm start'') exampleGetTime
                   [ServeLaunch ''proj_2'' None (\<lambda>port. True) True,
                    ServeSettle 2 None ''2025-01-01T02:01:00.000Z''] staleExitState)
                ''proj_1'' = Some p
            \<and> status p = serving \<and> servingPort p = Some 4000
            \<and> getProject
                (run (\<lambda>d. d) (\<lambda>d. ''npm start'') exampleGetTime
                   [ServeLaunch ''proj_2'' None (\<lambda>port. True) True,
                    ServeSettle 2 None ''2025-01-01T02:01:00.000Z''] staleExitState)
                ''proj_2'' = Some q
            \<and> status q = serving \<and> servingPort q = Some 4000)"
proof -
  have a: "\<exists>p. getProject staleExitState ''proj_1'' = Some p
        \<and> status p = serving \<and> servingPort p = Some 4000"
    by (simp add: staleExitState_def staleExitTrace_def run_defs)
  have b: "killed staleExitState = [0]"
    by (simp add: staleExitState_def staleExitTrace_def run_defs)
  have c: "serverExitCallbacks staleExitState 1 = Some (''proj_1'', 4000)"
    by (simp add: staleExitState_def staleExitTrace_def run_defs)
  have d: "4000 \<notin> allocatedPorts staleExitState"
    by (simp add: staleExitState_def staleExitTrace_def run_defs)
  have e: "serverProcesses staleExitState ''proj_1'' = None"
    by (simp add: staleExitState_def staleExitTrace_def run_defs)
  have f: "findAvailablePort (\<lambda>port. True) staleExitState = Some 4000"
    by (simp add: staleExitState_def staleExitTrace_def run_defs)
  have g: "\<exists>p. getProject
                (run (\<lambda>d. d) (\<lambda>d. ''npm start'') exampleGetTime
                   [ServeLaunch ''proj_2'' None (\<lambda>port. True) True,
                    ServeSettle 2 None ''2025-01-01T02:01:00.000Z''] staleExitState)
                ''proj_1'' = Some p
            \<and> status p = serving \<and> servingPort p = Some 4000"
    by (simp add: staleExitState_def staleExitTrace_def run_defs)
  have h: "\<exists>q. getProject
                (run (\<lambda>d. d) (\<lambda>d. ''npm start'') exampleGetTime
                   [ServeLaunch ''proj_2'' None (\<lambda>port. True) True,
                    ServeSettle 2 None ''2025-01-01T02:01:00.000Z''] staleExitState)
                ''proj_2'' = Some q
            \<and> status q = serving \<and> servingPort q = Some 4000"
    by (simp add: staleExitState_def staleExitTrace_def run_defs)
  from a b c d e f g h show ?thesis by blast
qed

subsection \<open>Loading the persisted records\<close>

lemma getProject_init_notin:
  "k \<notin> r_id ` set rows \<Longrightarrow> getProject (init rows m) k = getProject m k"
  unfolding init_def
  by (induction rows arbitrary: m) (auto simp add: getProject_setProject)

lemma getProject_init_in:
  "distinct (map r_id rows) \<Longrightarrow> r \<in> set rows \<Longrightarrow> getProject (init rows m) (r_id r) = Some (loadRow r)"
proof (induction rows arbitrary: m)
  case Nil
  then show ?case by simp
next
  case (Cons a rows)
  show ?case
  proof (cases "r = a")
    case True
    with Cons.prems have "r_id a \<notin> r_id ` set rows" by auto
    from getProject_init_notin[OF this, of "setProject (r_id a) (loadRow a) m"] True
    show ?thesis by (simp add: init_def getProject_setProject)
  next
    case False
    with Cons.prems have "r \<in> set rows" "distinct (map r_id rows)" by auto
    from Cons.IH[OF this(2) this(1), of "setProject (r_id a) (loadRow a) m"]
    show ?thesis by (simp add: init_def)
  qed
qed

lemma init_fields [simp]:
  "agentProcesses (init rows m) = agentProcesses m"
  "serverProcesses (init rows m) = serverProcesses m"
  unfolding init_def
  by (induction rows arbitrary: m) (auto simp add: setProject_def)

lemma projects_init_new:
  "getProject (init rows (newManager d s e mx h)) k = Some p \<Longrightarrow> \<exists>r \<in> set rows. p = loadRow r"
proof -
  have gen: "\<And>m. getProject (init rows m) k = Some p \<Longrightarrow>
               getProject m k = Some p \<or> (\<exists>r \<in> set rows. p = loadRow r)"
    unfolding init_def
  proof (induction rows)
    case Nil
    then show ?case by simp
  next
    case (Cons a rows)
    from Cons.IH[of "setProject (r_id a) (loadRow a) m"] Cons.prems
    show ?case by (auto simp add: getProject_setProject split: if_splits)
  qed
  assume "getProject (init rows (newManager d s e mx h)) k = Some p"
  from gen[OF this] show ?thesis by (simp add: getProject_def newManager_def)
qed

text \<open>
  Claim C8. \<open>init\<close> on a fresh manager loads every row of the table (whose primary key is
  the id): a row stored as \<open>building\<close> or \<open>creating\<close> is loaded as \<open>stopped\<close>, a row in any
  other status keeps its status, and every loaded record has no agent process and no
  preview process, in the record and in the process tables.
\<close>

theorem init_normalizes_in_flight:
  assumes "distinct (map r_id rows)" and "r \<in> set rows"
  shows "\<exists>p. getProject (init rows (newManager dir rs re mx host)) (r_id r) = Some p
           \<and> status p = (if r_status r = building \<or> r_status r = creating then stopped
                          else r_status r)
           \<and> agentProcess p = None \<and> serverProcess p = None
           \<and> agentProcesses (init rows (newManager dir rs re mx host)) (r_id r) = None
           \<and> serverProcesses (init rows (newManager dir rs re mx host)) (r_id r) = None
           \<and> (\<forall>k q. getProject (init rows (newManager dir rs re mx host)) k = Some q \<longrightarrow>
                  agentProcess q = None \<and> serverProcess q = None
                  \<and> status q \<noteq> building \<and> status q \<noteq> creating
                  \<and> agentProcesses (init rows (newManager dir rs re mx host)) k = None
                  \<and> serverProcesses (init rows (newManager dir rs re mx host)) k = None)"
proof -
  have "getProject (init rows (newManager dir rs re mx host)) (r_id r) = Some (loadRow r)"
    by (rule getProject_init_in[OF assms])
  moreover have "\<And>k q. getProject (init rows (newManager dir rs re mx host)) k = Some q \<Longrightarrow>
      agentProcess q = None \<and> serverProcess q = None \<and> status q \<noteq> building \<and> status q \<noteq> creating"
    by (drule projects_init_new) (auto simp add: loadRow_def split: if_splits)
  ultimately show ?thesis
    by (auto simp add: loadRow_def newManager_def)
qed

theorem init_normalizes_in_flight_witness:
  "distinct (map r_id [exampleRow ''proj_1'' building, exampleRow ''proj_2'' serving])
   \<and> exampleRow ''proj_1'' building \<in> set [exampleRow ''proj_1'' building, exampleRow ''proj_2'' serving]
   \<and> exampleRow ''proj_2'' serving \<in> set [exampleRow ''proj_1'' building, exampleRow ''proj_2'' serving]
   \<and> (\<exists>p. getProject (init [exampleRow ''proj_1'' building, exampleRow ''proj_2'' serving]
                 (newManager ''projects'' None None None None)) ''proj_1'' = Some p
          \<and> status p = stopped \<and> agentProcess p = None \<and> serverProcess p = None)
   \<and> (\<exists>p. getProject (init [exampleRow ''proj_1'' building, exampleRow ''proj_2'' serving]
                 (newManager ''projects'' None None None None)) ''proj_2'' = Some p
          \<and> status p = serving \<and> agentProcess p = None \<and> serverProcess p = None)"
proof -
  let ?rows = "[exampleRow ''proj_1'' building, exampleRow ''proj_2'' serving]"
  have ids: "r_id (exampleRow ''proj_1'' building) = ''proj_1''"
    "r_id (exampleRow ''proj_2'' serving) = ''proj_2''"
    "r_status (exampleRow ''proj_1'' building) = building"
    "r_status (exampleRow ''proj_2'' serving) = serving"
    by (simp_all add: exampleRow_def toRow_def exampleProject_def)
  have d: "distinct (map r_id ?rows)" by (simp add: ids)
  have a: "exampleRow ''proj_1'' building \<in> set ?rows" by simp
  have b: "exampleRow ''proj_2'' serving \<in> set ?rows" by simp
  from init_normalizes_in_flight[OF d a, of "''projects''" None None None None]
    init_normalizes_in_flight[OF d b, of "''projects''" None None None None] d a b
  show ?thesis by (auto simp add: ids)
qed

subsection \<open>The stall sweep\<close>

lemma stalled_other:
  assumes "k \<noteq> projectId"
  shows "getProject (stalledCheckProject nowMs getTime now k m) projectId = getProject m projectId"
    and "agentProcesses (stalledCheckProject nowMs getTime now k m) projectId
           = agentProcesses m projectId"
  using assms
  by (auto simp add: stalledCheckProject_def Let_def emitNotification_def getProject_mutate
        getProject_killAgentProcess killAgentProcess_def split: option.splits)

lemma stalled_logs:
  "set (killed m) \<subseteq> set (killed (stalledCheckProject nowMs getTime now k m))"
  "set (notifications m) \<subseteq> set (notifications (stalledCheckProject nowMs getTime now k m))"
  by (auto simp add: stalledCheckProject_def Let_def emitNotification_def
        killAgentProcess_def split: option.splits)

lemma stalled_idle:
  assumes "getProject m k = Some p" and "status p \<noteq> building" and "status p \<noteq> creating"
  shows "stalledCheckProject nowMs getTime now k m = m"
  using assms by (simp add: stalledCheckProject_def)

lemma stalled_fires:
  assumes "getProject m k = Some p"
    and "status p = building \<or> status p = creating"
    and "agentProcesses m k = Some pr"
    and "getTime (createdAt p) = Some created"
    and "nowMs - created > STALLED_AGENT_TIMEOUT_MS"
  shows "getProject (stalledCheckProject nowMs getTime now k m) k
           = Some (p\<lparr>agentProcess := None, status := failed,
                     lastNotification := Some timedOutNotification, updatedAt := now\<rparr>)"
    and "agentProcesses (stalledCheckProject nowMs getTime now k m) k = None"
    and "pr \<in> set (killed (stalledCheckProject nowMs getTime now k m))"
    and "(k, timedOutNotification) \<in> set (notifications (stalledCheckProject nowMs getTime now k m))"
    and "db (stalledCheckProject nowMs getTime now k m) (id' p)
           = Some (toRow (p\<lparr>agentProcess := None, status := failed,
                     lastNotification := Some timedOutNotification, updatedAt := now\<rparr>))"
  using assms
  by (auto simp add: stalledCheckProject_def Let_def emitNotification_def getProject_mutate
        getProject_killAgentProcess db_save killAgentProcess_def)

lemma stalled_noop:
  assumes "getProject m k = Some p"
    and "getTime (createdAt p) = Some created"
    and "\<not> nowMs - created > STALLED_AGENT_TIMEOUT_MS"
  shows "stalledCheckProject nowMs getTime now k m = m"
  using assms by (simp add: stalledCheckProject_def)

lemma fold_stalled_other:
  assumes "projectId \<notin> set ks"
  shows "getProject (fold (stalledCheckProject nowMs getTime now) ks m) projectId
           = getProject m projectId
         \<and> agentProcesses (fold (stalledCheckProject nowMs getTime now) ks m) projectId
           = agentProcesses m projectId"
  using assms
  by (induction ks arbitrary: m) (auto simp add: stalled_other)

lemma fold_stalled_done:
  assumes "getProject m projectId = Some q" and "status q = failed"
    and "agentProcesses m projectId = None"
    and "pr \<in> set (killed m)" and "e \<in> set (notifications m)"
  shows "getProject (fold (stalledCheckProject nowMs getTime now) ks m) projectId = Some q
         \<and> agentProcesses (fold (stalledCheckProject nowMs getTime now) ks m) projectId = None
         \<and> pr \<in> set (killed (fold (stalledCheckProject nowMs getTime now) ks m))
         \<and> e \<in> set (notifications (fold (stalledCheckProject nowMs getTime now) ks m))"
  using assms
proof (induction ks arbitrary: m)
  case Nil
  then show ?case by simp
next
  case (Cons k ks)
  show ?case
  proof (cases "k = projectId")
    case True
    with Cons.prems have "stalledCheckProject nowMs getTime now k m = m"
      by (simp add: stalled_idle)
    with Cons show ?thesis by simp
  next
    case False
    have "getProject (stalledCheckProject nowMs getTime now k m) projectId = Some q"
      "agentProcesses (stalledCheckProject nowMs getTime now k m) projectId = None"
      using False Cons.prems by (simp_all add: stalled_other)
    moreover have "pr \<in> set (killed (stalledCheckProject nowMs getTime now k m))"
      "e \<in> set (notifications (stalledCheckProject nowMs getTime now k m))"
      using Cons.prems stalled_logs[of m nowMs getTime now k] by auto
    ultimately show ?thesis
      using Cons.IH[of "stalledCheckProject nowMs getTime now k m"] Cons.prems(2) by simp
  qed
qed

lemma fold_stalled_young:
  assumes "getProject m projectId = Some p"
    and "agentProcesses m projectId = a"
    and "getTime (createdAt p) = Some created"
    and "\<not> nowMs - created > STALLED_AGENT_TIMEOUT_MS"
  shows "getProject (fold (stalledCheckProject nowMs getTime now) ks m) projectId = Some p
         \<and> agentProcesses (fold (stalledCheckProject nowMs getTime now) ks m) projectId = a"
  using assms
proof (induction ks arbitrary: m)
  case Nil
  then show ?case by simp
next
  case (Cons k ks)
  show ?case
  proof (cases "k = projectId")
    case True
    with Cons.prems have "stalledCheckProject nowMs getTime now k m = m"
      by (simp add: stalled_noop)
    with Cons show ?thesis by simp
  next
    case False
    with Cons.prems Cons.IH[of "stalledCheckProject nowMs getTime now k m"]
    show ?thesis by (simp add: stalled_other)
  qed
qed

text \<open>
  Claim C9. The stall sweep decides on the time since \<open>createdAt\<close> alone. For a project in
  status \<open>building\<close> or \<open>creating\<close> with an agent process registered: once the time since
  creation exceeds the timeout the sweep kills the agent, sets the status to \<open>failed\<close> and
  records and emits the timed-out notification, whatever the record's last update and
  last notification are; until then the sweep leaves the project as it is.
\<close>

theorem stall_sweep_measures_from_createdAt:
  assumes "getProject m projectId = Some p"
    and "status p = building \<or> status p = creating"
    and "agentProcesses m projectId = Some pr"
    and "getTime (createdAt p) = Some created"
  shows "(nowMs - created > STALLED_AGENT_TIMEOUT_MS \<longrightarrow>
            getProject (stalledCheck nowMs getTime now m) projectId
              = Some (p\<lparr>agentProcess := None, status := failed,
                        lastNotification := Some timedOutNotification, updatedAt := now\<rparr>)
            \<and> agentProcesses (stalledCheck nowMs getTime now m) projectId = None
            \<and> pr \<in> set (killed (stalledCheck nowMs getTime now m))
            \<and> (projectId, timedOutNotification)
                 \<in> set (notifications (stalledCheck nowMs getTime now m)))
       \<and> (\<not> nowMs - created > STALLED_AGENT_TIMEOUT_MS \<longrightarrow>
            getProject (stalledCheck nowMs getTime now m) projectId = Some p
            \<and> agentProcesses (stalledCheck nowMs getTime now m) projectId = Some pr)"
proof (intro conjI impI)
  assume old: "nowMs - created > STALLED_AGENT_TIMEOUT_MS"
  let ?step = "stalledCheckProject nowMs getTime now"
  let ?q = "p\<lparr>agentProcess := None, status := failed,
              lastNotification := Some timedOutNotification, updatedAt := now\<rparr>"
  from assms(1) have "projectId \<in> set (map fst (projects m))"
    by (auto simp add: getProject_def dest: map_of_SomeD intro: rev_image_eqI)
  from split_list_first[OF this] obtain xs ys where
    split: "map fst (projects m) = xs @ projectId # ys" and notin: "projectId \<notin> set xs"
    by blast
  let ?m1 = "fold ?step xs m"
  from fold_stalled_other[OF notin, of nowMs getTime now m] assms
  have pre: "getProject ?m1 projectId = Some p" "agentProcesses ?m1 projectId = Some pr"
    by simp_all
  let ?m2 = "?step projectId ?m1"
  note fire = stalled_fires[where getTime = getTime and now = now,
      OF pre(1) assms(2) pre(2) assms(4) old]
  have eq: "stalledCheck nowMs getTime now m = fold ?step ys ?m2"
    by (simp add: stalledCheck_def split)
  from fold_stalled_done[of ?m2 projectId ?q pr "(projectId, timedOutNotification)" nowMs getTime now ys]
    fire(1-4)
  have "getProject (fold ?step ys ?m2) projectId = Some ?q
         \<and> agentProcesses (fold ?step ys ?m2) projectId = None
         \<and> pr \<in> set (killed (fold ?step ys ?m2))
         \<and> (projectId, timedOutNotification) \<in> set (notifications (fold ?step ys ?m2))"
    by simp
  then show "getProject (stalledCheck nowMs getTime now m) projectId = Some ?q"
    "agentProcesses (stalledCheck nowMs getTime now m) projectId = None"
    "pr \<in> set (killed (stalledCheck nowMs getTime now m))"
    "(projectId, timedOutNotification) \<in> set (notifications (stalledCheck nowMs getTime now m))"
    by (simp_all add: eq)
next
  assume young: "\<not> nowMs - created > STALLED_AGENT_TIMEOUT_MS"
  from fold_stalled_young[where getTime = getTime and now = now
      and ks = "map fst (projects m)", OF assms(1) assms(3) assms(4) young]
  show "getProject (stalledCheck nowMs getTime now m) projectId = Some p"
    "agentProcesses (stalledCheck nowMs getTime now m) projectId = Some pr"
    by (simp_all add: stalledCheck_def)
qed

theorem stall_sweep_measures_from_createdAt_witness:
  "getProject (exampleManager building [''proj_1'' \<mapsto> 0]) ''proj_1'' = Some (exampleProject building)
   \<and> status (exampleProject building) = building
   \<and> agentProcesses (exampleManager building [''proj_1'' \<mapsto> 0]) ''proj_1'' = Some 0
   \<and> exampleGetTime (createdAt (exampleProject building)) = Some 1735689600000
   \<and> updatedAt (exampleProject building) = ''2025-01-01T00:59:00.000Z''
   \<and> 1735693200001 - 1735689600000 > STALLED_AGENT_TIMEOUT_MS
   \<and> getProject (stalledCheck 1735693200001 exampleGetTime ''2025-01-01T01:00:00.001Z''
         (exampleManager building [''proj_1'' \<mapsto> 0])) ''proj_1''
      = Some ((exampleProject building)\<lparr>agentProcess := None, status := failed,
                lastNotification := Some timedOutNotification,
                updatedAt := ''2025-01-01T01:00:00.001Z''\<rparr>)
   \<and> 0 \<in> set (killed (stalledCheck 1735693200001 exampleGetTime ''2025-01-01T01:00:00.001Z''
         (exampleManager building [''proj_1'' \<mapsto> 0])))
   \<and> \<not> 1735693200000 - 1735689600000 > STALLED_AGENT_TIMEOUT_MS
   \<and> getProject (stalledCheck 1735693200000 exampleGetTime ''2025-01-01T01:00:00.000Z''
         (exampleManager building [''proj_1'' \<mapsto> 0])) ''proj_1''
      = Some (exampleProject building)"
proof -
  let ?m = "exampleManager building [''proj_1'' \<mapsto> 0]"
  have h1: "getProject ?m ''proj_1'' = Some (exampleProject building)"
    by (simp add: example_defs)
  have h2: "status (exampleProject building) = building \<or> status (exampleProject building) = creating"
    by (simp add: exampleProject_def)
  have h3: "agentProcesses ?m ''proj_1'' = Some 0"
    by (simp add: exampleManager_def)
  have h4: "exampleGetTime (createdAt (exampleProject building)) = Some 1735689600000"
    by (simp add: exampleGetTime_def exampleProject_def)
  have h5: "updatedAt (exampleProject building) = ''2025-01-01T00:59:00.000Z''"
    "status (exampleProject building) = building"
    by (simp_all add: exampleProject_def)
  have t: "(1735693200001::int) - 1735689600000 > STALLED_AGENT_TIMEOUT_MS"
    "\<not> (1735693200000::int) - 1735689600000 > STALLED_AGENT_TIMEOUT_MS"
    by (simp_all add: STALLED_AGENT_TIMEOUT_MS_def)
  from stall_sweep_measures_from_createdAt[where getTime = exampleGetTime,
      OF h1 h2 h3 h4, of 1735693200001 "''2025-01-01T01:00:00.001Z''"]
    stall_sweep_measures_from_createdAt[where getTime = exampleGetTime,
      OF h1 h2 h3 h4, of 1735693200000 "''2025-01-01T01:00:00.000Z''"]
    h1 h3 h4 h5 t
  show ?thesis by simp
qed

subsection \<open>stopProject\<close>

text \<open>
  \<open>stopProject\<close> on an unknown id returns \<open>stopped: false\<close> and changes nothing, where
  \<open>openProject\<close>, \<open>sendToProject\<close> and \<open>serveProject\<close> fail with the not-found error. On a
  known project, whatever its status, it kills the processes that \<open>agentProcesses\<close> and
  \<open>serverProcesses\<close> hold for the project, sets the status to \<open>stopped\<close>, writes the
  record to the store and returns \<open>stopped: true\<close>.
\<close>

lemma stopProject_effect:
  "(getProject m projectId = None \<longrightarrow>
       stopProject projectId now m = (False, m)
       \<and> fst (openProject projectId task now spawnOk settled m) = Inl (NotFound projectId)
       \<and> fst (sendToProject projectId message now m) = Inl (NotFound projectId)
       \<and> fst (serveProject projectId command testPort findProjectRoot detectServeCommand
                spawnOk earlyExit now m) = Inl (NotFound projectId))
   \<and> (getProject m projectId \<noteq> None \<longrightarrow>
       (\<exists>m' p'. stopProject projectId now m = (True, m')
           \<and> getProject m' projectId = Some p'
           \<and> status p' = stopped
           \<and> agentProcess p' = None \<and> serverProcess p' = None \<and> servingPort p' = None
           \<and> agentProcesses m' projectId = None
           \<and> serverProcesses m' projectId = None
           \<and> (\<forall>pr. agentProcesses m projectId = Some pr \<longrightarrow> pr \<in> set (killed m'))
           \<and> (\<forall>pr. serverProcesses m projectId = Some pr \<longrightarrow> pr \<in> set (killed m'))
           \<and> db m' (id' p') = Some (toRow p')))"
proof (intro conjI impI)
  assume "getProject m projectId = None"
  then show "stopProject projectId now m = (False, m)"
    "fst (openProject projectId task now spawnOk settled m) = Inl (NotFound projectId)"
    "fst (sendToProject projectId message now m) = Inl (NotFound projectId)"
    "fst (serveProject projectId command testPort findProjectRoot detectServeCommand
                spawnOk earlyExit now m) = Inl (NotFound projectId)"
    by (simp_all add: stopProject_def openProject_def openProjectLaunch_def sendToProject_def
        serveProject_def serveLaunch_def)
next
  assume "getProject m projectId \<noteq> None"
  then obtain p where p: "getProject m projectId = Some p" by auto
  then show "\<exists>m' p'. stopProject projectId now m = (True, m')
           \<and> getProject m' projectId = Some p'
           \<and> status p' = stopped
           \<and> agentProcess p' = None \<and> serverProcess p' = None \<and> servingPort p' = None
           \<and> agentProcesses m' projectId = None
           \<and> serverProcesses m' projectId = None
           \<and> (\<forall>pr. agentProcesses m projectId = Some pr \<longrightarrow> pr \<in> set (killed m'))
           \<and> (\<forall>pr. serverProcesses m projectId = Some pr \<longrightarrow> pr \<in> set (killed m'))
           \<and> db m' (id' p') = Some (toRow p')"
    apply (simp add: stopProject_def Let_def getProject_mutate getProject_killAgentProcess
        getProject_killServerProcess db_save)
    apply (auto simp add: killAgentProcess_def killServerProcess_def Let_def getProject_mutate
        split: option.splits)
    done
qed

lemma stopProject_effect_example:
  "getProject (exampleManager building [''proj_1'' \<mapsto> 0]) ''nope'' = None
   \<and> stopProject ''nope'' ''t1'' (exampleManager building [''proj_1'' \<mapsto> 0])
      = (False, exampleManager building [''proj_1'' \<mapsto> 0])
   \<and> fst (sendToProject ''nope'' ''hello'' ''t1'' (exampleManager building [''proj_1'' \<mapsto> 0]))
      = Inl (NotFound ''nope'')
   \<and> getProject (exampleManager building [''proj_1'' \<mapsto> 0]) ''proj_1'' \<noteq> None
   \<and> agentProcesses (exampleManager building [''proj_1'' \<mapsto> 0]) ''proj_1'' = Some 0
   \<and> (\<exists>m' p'. stopProject ''proj_1'' ''t1'' (exampleManager building [''proj_1'' \<mapsto> 0]) = (True, m')
          \<and> getProject m' ''proj_1'' = Some p' \<and> status p' = stopped
          \<and> agentProcesses m' ''proj_1'' = None \<and> serverProcesses m' ''proj_1'' = None
          \<and> 0 \<in> set (killed m')
          \<and> db m' (id' p') = Some (toRow p'))"
proof -
  let ?m = "exampleManager building [''proj_1'' \<mapsto> 0]"
  have h1: "getProject ?m ''nope'' = None" "getProject ?m ''proj_1'' \<noteq> None"
    by (simp_all add: example_defs)
  have h2: "agentProcesses ?m ''proj_1'' = Some 0"
    by (simp add: exampleManager_def)
  from stopProject_effect[of ?m "''nope''" "''t1''" "''x''" True "''t2''" "''hello''" None "\<lambda>p. True" "\<lambda>d. d"
      "\<lambda>d. d" None]
    stopProject_effect[of ?m "''proj_1''" "''t1''" "''x''" True "''t2''" "''hello''" None "\<lambda>p. True" "\<lambda>d. d"
      "\<lambda>d. d" None] h1 h2
  show ?thesis by auto
qed

text \<open>A project with no entry in either process table is stopped without a \<open>kill()\<close>.\<close>

lemma stopProject_unregistered:
  assumes "map_option status (getProject m k) = Some st"
    and "agentProcesses m k = None"
    and "serverProcesses m k = None"
  shows "fst (stopProject k now m) = True"
    and "killed (snd (stopProject k now m)) = killed m"
    and "map_option status (getProject (snd (stopProject k now m)) k) = Some stopped"
  using assms
  by (auto simp add: stopProject_def killAgentProcess_def killServerProcess_def Let_def
      getProject_mutate split: option.splits)

lemma staleExitState_facts:
  "map_option status (getProject staleExitState ''proj_1'') = Some serving"
  "serverExitCallbacks staleExitState 1 = Some (''proj_1'', 4000)"
  "killed staleExitState = [0]"
  "agentProcesses staleExitState ''proj_1'' = None"
  "serverProcesses staleExitState ''proj_1'' = None"
  by (simp_all add: staleExitState_def staleExitTrace_def run_defs)

text \<open>
  Claim C10 says that \<open>stopProject\<close> on an unknown id returns \<open>stopped: false\<close> without an
  error, and that on a known project it kills any live agent and preview process, sets
  the status to \<open>stopped\<close>, writes the record and returns \<open>stopped: true\<close>. The first
  half holds, and on a known project \<open>stopProject\<close> kills what the two process tables hold
  for it. The exit callbacks delete a project's table entry without checking that the
  process that exited is still the project's current one, so a running process can be
  missing from its table. In \<open>staleExitState\<close> the first project is \<open>serving\<close> through
  preview process 1, and in \<open>staleAgentExitState\<close> it is \<open>building\<close> through agent process
  1; in both, process 1 has not exited (its exit callback is still registered) and the
  only \<open>kill()\<close> issued so far went to process 0. \<open>stopProject\<close> returns \<open>stopped: true\<close>
  and sets the status to \<open>stopped\<close> in both, and issues no \<open>kill()\<close>: process 1 keeps
  running.
\<close>

theorem stop_misses_live_processes:
  "map_option status (getProject staleExitState ''proj_1'') = Some serving
   \<and> serverExitCallbacks staleExitState 1 = Some (''proj_1'', 4000)
   \<and> killed staleExitState = [0]
   \<and> fst (stopProject ''proj_1'' ''2025-01-01T03:00:00.000Z'' staleExitState) = True
   \<and> killed (snd (stopProject ''proj_1'' ''2025-01-01T03:00:00.000Z'' staleExitState)) = [0]
   \<and> map_option status
        (getProject (snd (stopProject ''proj_1'' ''2025-01-01T03:00:00.000Z'' staleExitState))
           ''proj_1'') = Some stopped
   \<and> map_option status (getProject staleAgentExitState ''proj_1'') = Some building
   \<and> agentExitCallbacks staleAgentExitState 1 = Some ''proj_1''
   \<and> killed staleAgentExitState = [0]
   \<and> fst (stopProject ''proj_1'' ''2025-01-01T03:00:00.000Z'' staleAgentExitState) = True
   \<and> killed (snd (stopProject ''proj_1'' ''2025-01-01T03:00:00.000Z'' staleAgentExitState)) = [0]
   \<and> map_option status
        (getProject (snd (stopProject ''proj_1'' ''2025-01-01T03:00:00.000Z'' staleAgentExitState))
           ''proj_1'') = Some stopped"
  using staleExitState_facts staleAgentExitState_facts
    stopProject_unregistered[OF staleExitState_facts(1) staleExitState_facts(4)
      staleExitState_facts(5), of "''2025-01-01T03:00:00.000Z''"]
    stopProject_unregistered[OF staleAgentExitState_facts(1) staleAgentExitState_facts(2)
      staleAgentExitState_facts(7), of "''2025-01-01T03:00:00.000Z''"]
  by simp

subsection \<open>Chunk boundaries\<close>

lemma decode_append:
  "decode d (a @ b) =
     (case decode d a of (d1, out1) \<Rightarrow> (case decode d1 b of (d2, out2) \<Rightarrow> (d2, out1 @ out2)))"
  by (induction a arbitrary: d) (auto split: prod.splits)

lemma splitNewline_nonempty [simp]: "splitNewline s \<noteq> []"
  by (induction s) (auto split: list.splits)

lemma splitNewline_no_newline: "0x0A \<notin> set s \<Longrightarrow> splitNewline s = [s]"
  by (induction s) auto

lemma last_splitNewline_no_newline: "0x0A \<notin> set (last (splitNewline s))"
  by (induction s) (auto split: list.splits)

lemma splitNewline_append:
  "splitNewline (a @ b) = butlast (splitNewline a) @ splitNewline (last (splitNewline a) @ b)"
proof (induction a)
  case Nil
  then show ?case by simp
next
  case (Cons c a)
  show ?case
  proof (cases "c = 0x0A")
    case True
    then show ?thesis using Cons by simp
  next
    case False
    obtain l ls where s: "splitNewline a = l # ls" by (cases "splitNewline a") auto
    show ?thesis
    proof (cases ls)
      case Nil
      with s False Cons show ?thesis by (simp split: list.splits)
    next
      case (Cons l' ls')
      with s False Cons.IH show ?thesis by (simp split: list.splits)
    qed
  qed
qed

lemma map_filter_append:
  "List.map_filter f (xs @ ys) = List.map_filter f xs @ List.map_filter f ys"
  by (simp add: List.map_filter_def)

lemma pop_splitNewline: "(case splitNewline s of [] \<Rightarrow> [] | x # xs \<Rightarrow> last (splitNewline s)) = last (splitNewline s)"
  by (cases "splitNewline s") auto

lemma readChunk_append:
  "readChunk P r (a @ b) =
     (case readChunk P r a of
        (r1, records1) \<Rightarrow>
          (case readChunk P r1 b of (r2, records2) \<Rightarrow> (r2, records1 @ records2)))"
proof -
  obtain d buf where r: "r = (d, buf)" by (cases r)
  obtain d1 t1 where a: "decode d a = (d1, t1)" by (cases "decode d a")
  obtain d2 t2 where b: "decode d1 b = (d2, t2)" by (cases "decode d1 b")
  have ab: "decode d (a @ b) = (d2, t1 @ t2)"
    by (simp add: decode_append a b)
  let ?L1 = "splitNewline (buf @ t1)"
  let ?L2 = "splitNewline (last ?L1 @ t2)"
  have sp: "splitNewline (buf @ (t1 @ t2)) = butlast ?L1 @ ?L2"
    using splitNewline_append[of "buf @ t1" t2] by simp
  have bl: "butlast (butlast ?L1 @ ?L2) = butlast ?L1 @ butlast ?L2"
    by (simp add: butlast_append)
  have la: "last (butlast ?L1 @ ?L2) = last ?L2"
    by simp
  have ne: "butlast ?L1 @ ?L2 \<noteq> []" by simp
  show ?thesis
    using ne
    by (simp add: r readChunk_def a b ab pop_splitNewline Let_def)
       (simp add: sp bl la map_filter_append)
qed

lemma readChunk_empty:
  "0x0A \<notin> set buf \<Longrightarrow> readChunk P (d, buf) [] = ((d, buf), [])"
  by (simp add: readChunk_def splitNewline_no_newline List.map_filter_def)

lemma readChunk_buffer:
  "readChunk P r chunk = ((d1, buf1), records) \<Longrightarrow> 0x0A \<notin> set buf1"
  using last_splitNewline_no_newline
  by (auto simp add: readChunk_def Let_def pop_splitNewline split: prod.splits)

text \<open>
  Claim C1. Whatever way a byte stream is cut into chunks, reading the chunks one after
  the other parses the same records, in the same order, as reading the whole stream as
  one chunk, and leaves the same decoder state and the same fragment in the buffer. The
  buffer the reader starts from holds a line fragment (no newline), as it does at the
  start of a stream and after every chunk.
\<close>

theorem chunk_boundaries:
  assumes "0x0A \<notin> set buffer"
  shows "readOutputStream JSON_parse (decoder, buffer) chunks
           = readOutputStream JSON_parse (decoder, buffer) [concat chunks]"
  using assms
proof (induction chunks arbitrary: decoder buffer)
  case Nil
  then show ?case by (simp add: readChunk_empty)
next
  case (Cons chunk rest)
  obtain d1 buf1 rec1 where c: "readChunk JSON_parse (decoder, buffer) chunk = ((d1, buf1), rec1)"
    by (metis prod.collapse)
  from readChunk_buffer[OF c] have nb: "0x0A \<notin> set buf1" .
  from Cons.IH[OF nb, of d1] c
  show ?case
    by (simp add: readChunk_append split: prod.splits)
qed

theorem chunk_boundaries_witness:
  "0x0A \<notin> set ([] :: jstring)
   \<and> readOutputStream Some (newTextDecoder, []) exampleChunks
       = ((newTextDecoder\<lparr>bomSeen := True\<rparr>, [0x78]), [[0x7B, 0x7D], [0x22, 0xE9, 0x22]])
   \<and> readOutputStream Some (newTextDecoder, []) [concat exampleChunks]
       = ((newTextDecoder\<lparr>bomSeen := True\<rparr>, [0x78]), [[0x7B, 0x7D], [0x22, 0xE9, 0x22]])"
proof -
  have h: "0x0A \<notin> set ([] :: jstring)" by simp
  have a: "readOutputStream Some (newTextDecoder, []) exampleChunks
       = ((newTextDecoder\<lparr>bomSeen := True\<rparr>, [0x78]), [[0x7B, 0x7D], [0x22, 0xE9, 0x22]])"
    by (simp add: exampleChunks_def readChunk_def newTextDecoder_def utf8Handler_def
        utf8Lead_def codeUnits_def Let_def List.map_filter_def trim_def isSpace_def
        push_bit_eq_mult)
  from chunk_boundaries[OF h, of Some newTextDecoder exampleChunks] a h
  show ?thesis by simp
qed

subsection \<open>The annotation pattern\<close>

text \<open>What each piece of the pattern can match.\<close>

lemma lit_mem: "r \<in> set (lit s inp) \<longleftrightarrow> inp = s @ r"
  by (auto simp add: lit_def) (metis append_take_drop_id)


lemma cons_image:
  "(t, r) \<in> (\<lambda>(t, x). (c # t, x)) ` S \<longleftrightarrow> (\<exists>t'. t = c # t' \<and> (t', r) \<in> S)"
  by force

lemma starGreedy_mem: "(t, r) \<in> set (starGreedy P inp) \<longleftrightarrow> inp = t @ r \<and> list_all P t"
proof (induction inp arbitrary: t)
  case Nil
  then show ?case by auto
next
  case (Cons c cs)
  show ?case
    by (cases t) (auto simp add: Cons cons_image)
qed

lemma plusGreedy_mem:
  "(t, r) \<in> set (plusGreedy P inp) \<longleftrightarrow> inp = t @ r \<and> list_all P t \<and> t \<noteq> []"
  by (cases inp; cases t) (auto simp add: starGreedy_mem cons_image)

lemma starLazy_mem: "(t, r) \<in> set (starLazy P inp) \<longleftrightarrow> inp = t @ r \<and> list_all P t"
proof (induction inp arbitrary: t)
  case Nil
  then show ?case by auto
next
  case (Cons c cs)
  show ?case
    by (cases t) (auto simp add: Cons cons_image)
qed

lemma list_all_ne: "list_all (\<lambda>c. c \<noteq> x) p \<longleftrightarrow> x \<notin> set p"
  by (induction p) auto

lemma mem_concat_map: "y \<in> set (concat (map f xs)) \<longleftrightarrow> (\<exists>x. x \<in> set xs \<and> y \<in> set (f x))"
  by auto

lemma mem_map: "y \<in> set (map g xs) \<longleftrightarrow> (\<exists>x. x \<in> set xs \<and> y = g x)"
  by auto


lemmas comprehension_mem = mem_concat_map mem_map lit_mem plusGreedy_mem starGreedy_mem
  starLazy_mem


lemma bindI: "x \<in> set xs \<Longrightarrow> y \<in> set (f x) \<Longrightarrow> y \<in> set (concat (map f xs))"
  by auto

lemma phaseAttribute_mem:
  "(ph, r) \<in> set (phaseAttribute inp) \<longleftrightarrow> (\<exists>attr. inp = attr @ r \<and> phaseAttr attr ph)"
proof (cases ph)
  case None
  then show ?thesis
    by (auto simp add: phaseAttribute_def phaseAttr_def)
next
  case (Some p)
  have "(Some p, r) \<in> set (phaseAttribute inp) \<longleftrightarrow>
        (\<exists>ws. ws \<noteq> [] \<and> list_all isSpace ws \<and> 0x22 \<notin> set p
           \<and> inp = ws @ (js ''phase='' @ [0x22]) @ p @ [0x22] @ r)"
    (is "?L \<longleftrightarrow> ?R")
  proof
    assume ?L
    then obtain ws where "ws \<noteq> []" "list_all isSpace ws" "0x22 \<notin> set p"
      "inp = ws @ (js ''phase='' @ [0x22]) @ p @ [0x22] @ r"
      by (auto simp add: phaseAttribute_def comprehension_mem list_all_ne
          simp del: set_concat set_map)
    then show ?R by blast
  next
    assume ?R
    then obtain ws where h: "ws \<noteq> []" "list_all isSpace ws" "0x22 \<notin> set p"
      "inp = ws @ (js ''phase='' @ [0x22]) @ p @ [0x22] @ r"
      by blast
    let ?r3 = "[0x22] @ r"
    let ?r2 = "p @ ?r3"
    let ?r1 = "(js ''phase='' @ [0x22]) @ ?r2"
    have 1: "(ws, ?r1) \<in> set (plusGreedy isSpace inp)"
      by (simp add: plusGreedy_mem h)
    have 2: "?r2 \<in> set (lit (js ''phase='' @ [0x22]) ?r1)"
      by (simp add: lit_mem)
    have 3: "(p, ?r3) \<in> set (starGreedy (\<lambda>c. c \<noteq> 0x22) ?r2)"
      by (simp add: starGreedy_mem list_all_ne h)
    have 4: "r \<in> set (lit [0x22] ?r3)"
      by (simp add: lit_mem)
    have "(Some p, r) \<in> set (concat (map (\<lambda>(ws, r1). concat (map (\<lambda>r2. concat (map (\<lambda>(p, r3).
             map (\<lambda>r4. (Some p, r4)) (lit [0x22] r3)) (starGreedy (\<lambda>c. c \<noteq> 0x22) r2)))
             (lit (js ''phase='' @ [0x22]) r1))) (plusGreedy isSpace inp)))"
      apply (rule bindI[OF 1])
      apply (simp only: prod.case)
      apply (rule bindI[OF 2])
      apply (rule bindI[OF 3])
      apply (simp only: prod.case)
      using 4 apply simp
      done
    then show ?L
      unfolding phaseAttribute_def by simp
  qed
  then show ?thesis
    by (auto simp add: Some phaseAttr_def)
qed

lemma openTag_mem:
  "(st, ph, r) \<in> set (openTag inp) \<longleftrightarrow>
     (\<exists>ws attr. ws \<noteq> [] \<and> list_all isSpace ws \<and> st \<noteq> [] \<and> list_all isWord st
        \<and> phaseAttr attr ph
        \<and> inp = js ''<pearbot'' @ ws @ js ''status='' @ [0x22] @ st @ [0x22] @ attr
                  @ js ''>'' @ r)"
  (is "?L \<longleftrightarrow> ?R")
proof
  assume ?L
  then obtain ws attr where "ws \<noteq> []" "list_all isSpace ws" "st \<noteq> []" "list_all isWord st"
    "phaseAttr attr ph"
    "inp = js ''<pearbot'' @ ws @ js ''status='' @ [0x22] @ st @ [0x22] @ attr @ js ''>'' @ r"
    by (auto simp add: openTag_def comprehension_mem phaseAttribute_mem
        simp del: set_concat set_map)
  then show ?R by blast
next
  assume ?R
  then obtain ws attr where h: "ws \<noteq> []" "list_all isSpace ws" "st \<noteq> []" "list_all isWord st"
    "phaseAttr attr ph"
    "inp = js ''<pearbot'' @ ws @ js ''status='' @ [0x22] @ st @ [0x22] @ attr @ js ''>'' @ r"
    by blast
  let ?r6 = "js ''>'' @ r"
  let ?r5 = "attr @ ?r6"
  let ?r4 = "[0x22] @ ?r5"
  let ?r3 = "st @ ?r4"
  let ?r2 = "(js ''status='' @ [0x22]) @ ?r3"
  let ?r1 = "ws @ ?r2"
  have 1: "?r1 \<in> set (lit (js ''<pearbot'') inp)"
    by (simp add: lit_mem h(6))
  have 2: "(ws, ?r2) \<in> set (plusGreedy isSpace ?r1)"
    by (simp add: plusGreedy_mem h)
  have 3: "?r3 \<in> set (lit (js ''status='' @ [0x22]) ?r2)"
    by (simp add: lit_mem)
  have 4: "(st, ?r4) \<in> set (plusGreedy isWord ?r3)"
    by (simp add: plusGreedy_mem h)
  have 5: "?r5 \<in> set (lit [0x22] ?r4)"
    by (simp add: lit_mem)
  have 6: "(ph, ?r6) \<in> set (phaseAttribute ?r5)"
    unfolding phaseAttribute_mem using h(5) by blast
  have 7: "r \<in> set (lit (js ''>'') ?r6)"
    by (simp add: lit_mem)
  show ?L
    unfolding openTag_def
    apply (rule bindI[OF 1])
    apply (rule bindI[OF 2])
    apply (simp only: prod.case)
    apply (rule bindI[OF 3])
    apply (rule bindI[OF 4])
    apply (simp only: prod.case)
    apply (rule bindI[OF 5])
    apply (rule bindI[OF 6])
    apply (simp only: prod.case)
    using 7 apply simp
    done
qed

lemma matchHere_mem:
  "(st, ph, body) \<in> set (matchHere inp) \<longleftrightarrow>
     (\<exists>span post. inp = span @ post \<and> taggedSpan span st ph body)"
  (is "?L \<longleftrightarrow> ?R")
proof
  assume ?L
  then obtain r1 post where a: "(st, ph, r1) \<in> set (openTag inp)"
    and b: "r1 = body @ js ''</pearbot>'' @ post"
    by (auto simp add: matchHere_def comprehension_mem simp del: set_concat set_map)
  from a obtain ws attr where h: "ws \<noteq> []" "list_all isSpace ws" "st \<noteq> []" "list_all isWord st"
    "phaseAttr attr ph"
    "inp = js ''<pearbot'' @ ws @ js ''status='' @ [0x22] @ st @ [0x22] @ attr @ js ''>'' @ r1"
    unfolding openTag_mem by blast
  have "taggedSpan (js ''<pearbot'' @ ws @ js ''status='' @ [0x22] @ st @ [0x22] @ attr
                   @ js ''>'' @ body @ js ''</pearbot>'') st ph body"
    unfolding taggedSpan_def using h(1-5) by blast
  moreover have "inp = (js ''<pearbot'' @ ws @ js ''status='' @ [0x22] @ st @ [0x22] @ attr
                   @ js ''>'' @ body @ js ''</pearbot>'') @ post"
    by (simp add: h(6) b)
  ultimately show ?R by blast
next
  assume ?R
  then obtain span post where i: "inp = span @ post" and t: "taggedSpan span st ph body"
    by blast
  from t obtain ws attr where h: "ws \<noteq> []" "list_all isSpace ws" "st \<noteq> []" "list_all isWord st"
    "phaseAttr attr ph"
    "span = js ''<pearbot'' @ ws @ js ''status='' @ [0x22] @ st @ [0x22] @ attr
                   @ js ''>'' @ body @ js ''</pearbot>''"
    unfolding taggedSpan_def by blast
  have a: "(st, ph, body @ js ''</pearbot>'' @ post) \<in> set (openTag inp)"
    unfolding openTag_mem using h(1-5) by (auto simp add: i h(6))
  have b: "(body, js ''</pearbot>'' @ post) \<in> set (starLazy (\<lambda>c. True) (body @ js ''</pearbot>'' @ post))"
    by (simp add: starLazy_mem list_all_iff)
  have c: "post \<in> set (lit (js ''</pearbot>'') (js ''</pearbot>'' @ post))"
    by (simp add: lit_mem)
  show ?L
    unfolding matchHere_def
    apply (rule bindI[OF a])
    apply (simp only: prod.case)
    apply (rule bindI[OF b])
    apply (simp only: prod.case)
    using c apply simp
    done
qed

lemma munch_unique:
  assumes "xs @ a # r = ys @ b # r'" and "list_all P xs" and "list_all P ys"
    and "\<not> P a" and "\<not> P b"
  shows "xs = ys \<and> a = b \<and> r = r'"
  using assms
proof (induction xs arbitrary: ys)
  case Nil
  then show ?case by (cases ys) auto
next
  case (Cons x xs)
  then show ?case by (cases ys) auto
qed

lemma munch_lit:
  assumes "xs @ s @ r = ys @ s @ r'" and "list_all P xs" and "list_all P ys"
    and "s \<noteq> []" and "\<not> P (hd s)"
  shows "xs = ys \<and> r = r'"
proof -
  from assms(4) obtain a s' where s: "s = a # s'" by (cases s) auto
  with assms(1) have "xs @ a # (s' @ r) = ys @ a # (s' @ r')" by simp
  from munch_unique[OF this assms(2) assms(3)] assms(5) s show ?thesis by simp
qed

lemma lit_heads:
  "js ''status='' @ [0x22] \<noteq> []" "\<not> isSpace (hd (js ''status='' @ [0x22]))"
  "js ''phase='' @ [0x22] \<noteq> []" "\<not> isSpace (hd (js ''phase='' @ [0x22]))"
  "js ''>'' \<noteq> []" "\<not> isSpace (hd (js ''>''))"
  "\<not> isWord 0x22"
  by (simp_all add: js_def isSpace_def isWord_def)

lemma phaseAttr_unique:
  assumes "phaseAttr attr ph" and "phaseAttr attr' ph'"
    and "attr @ js ''>'' @ r = attr' @ js ''>'' @ r'"
  shows "ph = ph' \<and> r = r'"
proof (cases ph; cases ph')
  assume "ph = None" "ph' = None"
  with assms show ?thesis by (simp add: phaseAttr_def)
next
  fix p' assume n: "ph = None" and s: "ph' = Some p'"
  from assms(2) s obtain ws where w: "ws \<noteq> []" "list_all isSpace ws"
    "attr' = ws @ (js ''phase='' @ [0x22]) @ p' @ [0x22]"
    by (auto simp add: phaseAttr_def)
  from assms(1) n have a: "attr = []" by (simp add: phaseAttr_def)
  have "ws = [] @ ws" by simp
  from w(1) obtain c ws1 where c: "ws = c # ws1" by (cases ws) auto
  with w(2) have sp: "isSpace c" by simp
  from assms(3) have "hd (attr @ js ''>'' @ r) = hd (attr' @ js ''>'' @ r')" by simp
  then have "hd (js ''>'') = c"
    unfolding a w(3) c by (simp add: js_def)
  with sp lit_heads(6) show ?thesis by simp
next
  fix p assume s: "ph = Some p" and n: "ph' = None"
  from assms(1) s obtain ws where w: "ws \<noteq> []" "list_all isSpace ws"
    "attr = ws @ (js ''phase='' @ [0x22]) @ p @ [0x22]"
    by (auto simp add: phaseAttr_def)
  from assms(2) n have a: "attr' = []" by (simp add: phaseAttr_def)
  from w(1) obtain c ws1 where c: "ws = c # ws1" by (cases ws) auto
  with w(2) have sp: "isSpace c" by simp
  from assms(3) have "hd (attr @ js ''>'' @ r) = hd (attr' @ js ''>'' @ r')" by simp
  then have "c = hd (js ''>'')"
    unfolding a w(3) c by (simp add: js_def)
  with sp lit_heads(6) show ?thesis by simp
next
  fix p p' assume s: "ph = Some p" and s': "ph' = Some p'"
  from assms(1) s obtain ws where w: "list_all isSpace ws" "0x22 \<notin> set p"
    "attr = ws @ (js ''phase='' @ [0x22]) @ p @ [0x22]"
    by (auto simp add: phaseAttr_def)
  from assms(2) s' obtain ws' where w': "list_all isSpace ws'" "0x22 \<notin> set p'"
    "attr' = ws' @ (js ''phase='' @ [0x22]) @ p' @ [0x22]"
    by (auto simp add: phaseAttr_def)
  from assms(3)
  have "ws @ (js ''phase='' @ [0x22]) @ (p @ 0x22 # (js ''>'' @ r))
        = ws' @ (js ''phase='' @ [0x22]) @ (p' @ 0x22 # (js ''>'' @ r'))"
    unfolding w(3) w'(3) by (simp only: append_assoc append_Cons append_Nil)
  from munch_lit[OF this w(1) w'(1) lit_heads(3) lit_heads(4)]
  have "p @ 0x22 # (js ''>'' @ r) = p' @ 0x22 # (js ''>'' @ r')" by simp
  from munch_unique[OF this, of "\<lambda>c. c \<noteq> 0x22"] w(2) w'(2)
  have "p = p' \<and> js ''>'' @ r = js ''>'' @ r'"
    by (simp add: list_all_ne)
  with s s' show ?thesis by simp
qed

lemma openTag_unique:
  assumes "(st, ph, r) \<in> set (openTag inp)" and "(st', ph', r') \<in> set (openTag inp)"
  shows "st = st' \<and> ph = ph' \<and> r = r'"
proof -
  from assms(1) obtain ws attr where h: "list_all isSpace ws" "list_all isWord st"
    "phaseAttr attr ph"
    "inp = js ''<pearbot'' @ ws @ js ''status='' @ [0x22] @ st @ [0x22] @ attr @ js ''>'' @ r"
    unfolding openTag_mem by blast
  from assms(2) obtain ws' attr' where h': "list_all isSpace ws'" "list_all isWord st'"
    "phaseAttr attr' ph'"
    "inp = js ''<pearbot'' @ ws' @ js ''status='' @ [0x22] @ st' @ [0x22] @ attr' @ js ''>'' @ r'"
    unfolding openTag_mem by blast
  have "js ''<pearbot'' @ ws @ js ''status='' @ [0x22] @ st @ [0x22] @ attr @ js ''>'' @ r
        = js ''<pearbot'' @ ws' @ js ''status='' @ [0x22] @ st' @ [0x22] @ attr' @ js ''>'' @ r'"
    using h(4) h'(4) by (rule trans[OF sym])
  then have "ws @ (js ''status='' @ [0x22]) @ (st @ 0x22 # (attr @ js ''>'' @ r))
        = ws' @ (js ''status='' @ [0x22]) @ (st' @ 0x22 # (attr' @ js ''>'' @ r'))"
    by (simp only: same_append_eq append_assoc append_Cons append_Nil)
  from munch_lit[OF this h(1) h'(1) lit_heads(1) lit_heads(2)]
  have "st @ 0x22 # (attr @ js ''>'' @ r) = st' @ 0x22 # (attr' @ js ''>'' @ r')" by simp
  from munch_unique[OF this h(2) h'(2) lit_heads(7) lit_heads(7)]
  have st: "st = st'" and rest: "attr @ js ''>'' @ r = attr' @ js ''>'' @ r'"
    by simp_all
  from phaseAttr_unique[OF h(3) h'(3) rest] st show ?thesis by simp
qed

text \<open>The bodies a lazy scan for the closing tag offers, shortest first.\<close>

lemma lazy_cons:
  "concat (map (\<lambda>(body, r2). map (\<lambda>r3. (st, ph, body)) (lit s r2))
             (map (\<lambda>(t, r). (c # t, r)) xs))
   = map (\<lambda>(st, ph, b). (st, ph, c # b))
       (concat (map (\<lambda>(body, r2). map (\<lambda>r3. (st, ph, body)) (lit s r2)) xs))"
  by (induction xs) (auto simp add: lit_def)

lemma lazy_hd_shortest:
  assumes "concat (map (\<lambda>(body, r2). map (\<lambda>r3. (st, ph, body)) (lit s r2))
             (starLazy (\<lambda>c. True) R)) \<noteq> []"
  shows "\<exists>b0. hd (concat (map (\<lambda>(body, r2). map (\<lambda>r3. (st, ph, body)) (lit s r2))
                      (starLazy (\<lambda>c. True) R))) = (st, ph, b0)
           \<and> (\<forall>b r3. R = b @ s @ r3 \<longrightarrow> length b0 \<le> length b)"
  using assms
proof (induction R)
  case Nil
  then show ?case by (auto simp add: lit_def split: if_splits)
next
  case (Cons c cs)
  let ?F = "\<lambda>(body, r2). map (\<lambda>r3. (st, ph, body)) (lit s r2)"
  show ?case
  proof (cases "lit s (c # cs) = []")
    case False
    then have "hd (concat (map ?F (starLazy (\<lambda>c. True) (c # cs)))) = (st, ph, [])"
      by (auto simp add: lit_def split: if_splits)
    then show ?thesis by simp
  next
    case True
    have eq: "concat (map ?F (starLazy (\<lambda>c. True) (c # cs)))
          = map (\<lambda>(st, ph, b). (st, ph, c # b)) (concat (map ?F (starLazy (\<lambda>c. True) cs)))"
      using True lazy_cons[of st ph s c "starLazy (\<lambda>c. True) cs"] by simp
    have ne: "concat (map ?F (starLazy (\<lambda>c. True) cs)) \<noteq> []"
      using Cons.prems unfolding eq by (simp only: map_is_Nil_conv not_False_eq_True)
    from Cons.IH[OF ne] obtain b0 where
      b0: "hd (concat (map ?F (starLazy (\<lambda>c. True) cs))) = (st, ph, b0)"
      and mn: "\<forall>b r3. cs = b @ s @ r3 \<longrightarrow> length b0 \<le> length b"
      by blast
    have h: "hd (concat (map ?F (starLazy (\<lambda>c. True) (c # cs)))) = (st, ph, c # b0)"
      unfolding eq using ne b0 by (simp add: hd_map)
    have "\<forall>b r3. c # cs = b @ s @ r3 \<longrightarrow> length (c # b0) \<le> length b"
    proof (intro allI impI)
      fix b r3 assume d: "c # cs = b @ s @ r3"
      show "length (c # b0) \<le> length b"
      proof (cases b)
        case Nil
        with d have "c # cs = s @ r3" by simp
        then have "r3 \<in> set (lit s (c # cs))" by (simp add: lit_mem)
        with True show ?thesis by simp
      next
        case (Cons c' b')
        with d have "cs = b' @ s @ r3" by simp
        with mn have "length b0 \<le> length b'" by blast
        with Cons show ?thesis by simp
      qed
    qed
    with h show ?thesis by blast
  qed
qed

lemma hd_concat_same:
  assumes "\<forall>x \<in> set xs. x = X" and "concat (map f xs) \<noteq> []"
  shows "hd (concat (map f xs)) = hd (f X) \<and> f X \<noteq> []"
  using assms
proof (induction xs)
  case Nil
  then show ?case by simp
next
  case (Cons y ys)
  from Cons.prems(1) have y: "y = X" and rest: "\<forall>x \<in> set ys. x = X" by simp_all
  have c: "concat (map f (y # ys)) = f X @ concat (map f ys)"
    unfolding y by simp
  show ?case
  proof (cases "f X = []")
    case True
    with Cons.prems(2) c have "concat (map f ys) \<noteq> []" by simp
    from Cons.IH[OF rest this] True show ?thesis by simp
  next
    case False
    then show ?thesis unfolding c by simp
  qed
qed

text \<open>
  The first match at a position: its status and phase are those of every tagged span
  that starts there, and its body is the shortest.
\<close>

lemma matchHere_hd:
  assumes "matchHere inp \<noteq> []"
  shows "\<exists>st ph body. hd (matchHere inp) = (st, ph, body)
           \<and> (st, ph, body) \<in> set (matchHere inp)
           \<and> (\<forall>st' ph' body'. (st', ph', body') \<in> set (matchHere inp) \<longrightarrow>
                 st' = st \<and> ph' = ph \<and> length body \<le> length body')"
proof -
  let ?G = "\<lambda>(st, ph, r1). concat (map (\<lambda>(body, r2). map (\<lambda>r3. (st, ph, body))
                (lit (js ''</pearbot>'') r2)) (starLazy (\<lambda>c. True) r1))"
  have def: "matchHere inp = concat (map ?G (openTag inp))"
    by (simp add: matchHere_def)
  from assms def have "openTag inp \<noteq> []" by auto
  then obtain X where X: "X \<in> set (openTag inp)" by (cases "openTag inp") auto
  obtain st ph R where Xe: "X = (st, ph, R)" by (cases X) auto
  have same: "\<forall>x \<in> set (openTag inp). x = X"
  proof
    fix x assume "x \<in> set (openTag inp)"
    moreover obtain a b c where "x = (a, b, c)" by (cases x) auto
    ultimately show "x = X" using openTag_unique[of a b c inp st ph R] X Xe by simp
  qed
  from hd_concat_same[OF same, of ?G] assms def
  have h: "hd (matchHere inp) = hd (?G X)" and ne: "?G X \<noteq> []" by simp_all
  from ne Xe have ne': "concat (map (\<lambda>(body, r2). map (\<lambda>r3. (st, ph, body))
                (lit (js ''</pearbot>'') r2)) (starLazy (\<lambda>c. True) R)) \<noteq> []" by simp
  from lazy_hd_shortest[OF ne'] obtain b0 where
    b0: "hd (?G X) = (st, ph, b0)"
    and mn: "\<forall>b r3. R = b @ js ''</pearbot>'' @ r3 \<longrightarrow> length b0 \<le> length b"
    using Xe by auto
  have hd_eq: "hd (matchHere inp) = (st, ph, b0)" using h b0 by simp
  have mem: "(st, ph, b0) \<in> set (matchHere inp)"
    using hd_eq assms by (metis list.set_sel(1))
  have "\<forall>st' ph' body'. (st', ph', body') \<in> set (matchHere inp) \<longrightarrow>
                 st' = st \<and> ph' = ph \<and> length b0 \<le> length body'"
  proof (intro allI impI)
    fix st' ph' body' assume m: "(st', ph', body') \<in> set (matchHere inp)"
    then obtain r1 post where a: "(st', ph', r1) \<in> set (openTag inp)"
      and b: "r1 = body' @ js ''</pearbot>'' @ post"
      by (auto simp add: matchHere_def comprehension_mem simp del: set_concat set_map)
    from same a Xe have "st' = st" "ph' = ph" "r1 = R" by auto
    with b mn show "st' = st \<and> ph' = ph \<and> length b0 \<le> length body'" by blast
  qed
  with hd_eq mem show ?thesis by blast
qed

lemma exec_None: "exec inp = None \<longleftrightarrow> (\<forall>pre suf. inp = pre @ suf \<longrightarrow> matchHere suf = [])"
proof (induction inp)
  case Nil
  then show ?case by (auto split: list.splits)
next
  case (Cons c cs)
  show ?case
  proof (cases "matchHere (c # cs)")
    case Nil
    have "(\<forall>pre suf. c # cs = pre @ suf \<longrightarrow> matchHere suf = [])
          \<longleftrightarrow> (\<forall>pre suf. cs = pre @ suf \<longrightarrow> matchHere suf = [])"
      using Nil by (auto simp add: Cons_eq_append_conv)
    with Nil Cons show ?thesis by simp
  next
    case (Cons m ms)
    then have "\<not> (\<forall>pre suf. c # cs = pre @ suf \<longrightarrow> matchHere suf = [])"
      by (metis append_Nil list.distinct(1))
    with Cons show ?thesis by simp
  qed
qed

lemma exec_Some:
  assumes "exec inp = Some m"
  shows "\<exists>pre suf. inp = pre @ suf \<and> matchHere suf \<noteq> [] \<and> m = hd (matchHere suf)
           \<and> (\<forall>pre' suf'. inp = pre' @ suf' \<and> length pre' < length pre \<longrightarrow> matchHere suf' = [])"
  using assms
proof (induction inp)
  case Nil
  then have "matchHere [] \<noteq> [] \<and> m = hd (matchHere [])"
    by (auto split: list.splits)
  then show ?case by auto
next
  case (Cons c cs)
  show ?case
  proof (cases "matchHere (c # cs)")
    case Nil
    with Cons.prems have "exec cs = Some m" by simp
    from Cons.IH[OF this] obtain pre suf where
      h: "cs = pre @ suf" "matchHere suf \<noteq> []" "m = hd (matchHere suf)"
      "\<forall>pre' suf'. cs = pre' @ suf' \<and> length pre' < length pre \<longrightarrow> matchHere suf' = []"
      by blast
    have "\<forall>pre' suf'. c # cs = pre' @ suf' \<and> length pre' < length (c # pre)
            \<longrightarrow> matchHere suf' = []"
    proof (intro allI impI)
      fix pre' suf' assume a: "c # cs = pre' @ suf' \<and> length pre' < length (c # pre)"
      show "matchHere suf' = []"
      proof (cases pre')
        case Nil
        with a have "suf' = c # cs" by simp
        with \<open>matchHere (c # cs) = []\<close> show ?thesis by simp
      next
        case (Cons c' p')
        with a have "cs = p' @ suf'" "length p' < length pre" by simp_all
        with h(4) show ?thesis by blast
      qed
    qed
    moreover have "c # cs = (c # pre) @ suf" using h(1) by simp
    ultimately show ?thesis using h(2) h(3) by blast
  next
    case (Cons m' ms)
    with Cons.prems have "m = m'" by simp
    with Cons have "c # cs = [] @ (c # cs)" "matchHere (c # cs) \<noteq> []" "m = hd (matchHere (c # cs))"
      by simp_all
    then show ?thesis
      by (metis length_0_conv less_nat_zero_code list.size(3))
  qed
qed

lemma matchHere_nonempty:
  "matchHere suf \<noteq> [] \<longleftrightarrow>
     (\<exists>span post st ph body. suf = span @ post \<and> taggedSpan span st ph body)"
proof
  assume "matchHere suf \<noteq> []"
  then obtain m where "m \<in> set (matchHere suf)" by (cases "matchHere suf") auto
  moreover obtain st ph body where "m = (st, ph, body)" by (cases m) auto
  ultimately have "(st, ph, body) \<in> set (matchHere suf)" by simp
  then have "\<exists>span post. suf = span @ post \<and> taggedSpan span st ph body"
    by (simp only: matchHere_mem)
  then show "\<exists>span post st ph body. suf = span @ post \<and> taggedSpan span st ph body"
    by blast
next
  assume "\<exists>span post st ph body. suf = span @ post \<and> taggedSpan span st ph body"
  then obtain st ph body where "\<exists>span post. suf = span @ post \<and> taggedSpan span st ph body"
    by blast
  then have "(st, ph, body) \<in> set (matchHere suf)"
    by (simp only: matchHere_mem)
  then show "matchHere suf \<noteq> []" by auto
qed

lemma exec_None_containsSpan: "exec inp = None \<longleftrightarrow> \<not> containsSpan inp"
proof -
  have "containsSpan inp \<longleftrightarrow> (\<exists>pre suf. inp = pre @ suf \<and> matchHere suf \<noteq> [])"
    unfolding containsSpan_def matchHere_nonempty by blast
  then show ?thesis unfolding exec_None by blast
qed

text \<open>
  Claim C2. \<open>parseNotification\<close> is a function of the text alone. It returns a
  notification exactly when the text contains a tagged span (a status word, an optional
  phase, enclosed text, the closing tag); a text without one, such as a malformed or
  unterminated tag, gives none. The notification returned is that of the first span of
  the text: no span starts before it, every span starting at the same place has its
  status and phase, and its enclosed text is the shortest, so it ends at the first
  closing tag whatever follows.
\<close>

theorem parseNotification_first_tagged_span:
  "(parseNotification text = None \<longleftrightarrow> \<not> containsSpan text)
   \<and> (\<forall>n. parseNotification text = Some n \<longrightarrow>
        (\<exists>pre span post st ph body.
            text = pre @ span @ post \<and> taggedSpan span st ph body
            \<and> n = \<lparr> nstatus = st, phase = orNull ph, content = trim body \<rparr>
            \<and> (\<forall>pre' span' post' st' ph' body'.
                  text = pre' @ span' @ post' \<and> taggedSpan span' st' ph' body' \<longrightarrow>
                    length pre \<le> length pre'
                    \<and> (length pre' = length pre \<longrightarrow>
                         st' = st \<and> ph' = ph \<and> length body \<le> length body'))))"
proof (intro conjI allI impI)
  show "parseNotification text = None \<longleftrightarrow> \<not> containsSpan text"
    using exec_None_containsSpan[of "text"]
    by (auto simp add: parseNotification_def split: option.splits)
next
  fix n assume "parseNotification text = Some n"
  then obtain m1 m2 m3 where e: "exec text = Some (m1, m2, m3)"
    and n: "n = \<lparr> nstatus = m1, phase = orNull m2, content = trim m3 \<rparr>"
    by (auto simp add: parseNotification_def split: option.splits)
  from exec_Some[OF e] obtain pre suf where
    s: "text = pre @ suf" "matchHere suf \<noteq> []" "(m1, m2, m3) = hd (matchHere suf)"
    and first: "\<forall>pre' suf'. text = pre' @ suf' \<and> length pre' < length pre
                  \<longrightarrow> matchHere suf' = []"
    apply (elim exE conjE)
    apply (rule that)
       apply assumption+
    done
  from matchHere_hd[OF s(2)] obtain st0 ph0 body0 where
    h0: "hd (matchHere suf) = (st0, ph0, body0)"
    "(st0, ph0, body0) \<in> set (matchHere suf)"
    "\<forall>st' ph' body'. (st', ph', body') \<in> set (matchHere suf) \<longrightarrow>
                 st' = st0 \<and> ph' = ph0 \<and> length body0 \<le> length body'"
    apply (elim exE conjE)
    apply (rule that)
      apply assumption+
    done
  from h0(1) s(3) have m0: "st0 = m1" "ph0 = m2" "body0 = m3" by simp_all
  have mem: "(m1, m2, m3) \<in> set (matchHere suf)"
    using h0(2) unfolding m0 .
  have least: "\<forall>st' ph' body'. (st', ph', body') \<in> set (matchHere suf) \<longrightarrow>
                 st' = m1 \<and> ph' = m2 \<and> length m3 \<le> length body'"
    using h0(3) unfolding m0 .
  from mem have "\<exists>span post. suf = span @ post \<and> taggedSpan span m1 m2 m3"
    by (simp only: matchHere_mem)
  then obtain span post where sp: "suf = span @ post" "taggedSpan span m1 m2 m3"
    by blast
  have other: "\<forall>pre' span' post' st' ph' body'.
                  text = pre' @ span' @ post' \<and> taggedSpan span' st' ph' body' \<longrightarrow>
                    length pre \<le> length pre'
                    \<and> (length pre' = length pre \<longrightarrow>
                         st' = m1 \<and> ph' = m2 \<and> length m3 \<le> length body')"
  proof (intro allI impI)
    fix pre' span' post' st' ph' body'
    assume a: "text = pre' @ span' @ post' \<and> taggedSpan span' st' ph' body'"
    then have "\<exists>span post. span' @ post' = span @ post \<and> taggedSpan span st' ph' body'"
      by blast
    then have m: "(st', ph', body') \<in> set (matchHere (span' @ post'))"
      by (simp only: matchHere_mem)
    then have ne: "matchHere (span' @ post') \<noteq> []" by auto
    have le: "length pre \<le> length pre'"
    proof (rule ccontr)
      assume "\<not> length pre \<le> length pre'"
      then have "length pre' < length pre" by simp
      with a have "text = pre' @ (span' @ post') \<and> length pre' < length pre" by simp
      with first have "matchHere (span' @ post') = []" by (rule_tac allE[OF first]) blast
      with ne show False by simp
    qed
    have "length pre' = length pre \<longrightarrow> st' = m1 \<and> ph' = m2 \<and> length m3 \<le> length body'"
    proof
      assume "length pre' = length pre"
      with a s(1) have "span' @ post' = suf" by simp
      with m least show "st' = m1 \<and> ph' = m2 \<and> length m3 \<le> length body'" by blast
    qed
    with le show "length pre \<le> length pre'
                    \<and> (length pre' = length pre \<longrightarrow>
                         st' = m1 \<and> ph' = m2 \<and> length m3 \<le> length body')" by blast
  qed
  from s(1) sp have "text = pre @ span @ post" by simp
  with sp(2) n other
  show "\<exists>pre span post st ph body.
            text = pre @ span @ post \<and> taggedSpan span st ph body
            \<and> n = \<lparr> nstatus = st, phase = orNull ph, content = trim body \<rparr>
            \<and> (\<forall>pre' span' post' st' ph' body'.
                  text = pre' @ span' @ post' \<and> taggedSpan span' st' ph' body' \<longrightarrow>
                    length pre \<le> length pre'
                    \<and> (length pre' = length pre \<longrightarrow>
                         st' = st \<and> ph' = ph \<and> length body \<le> length body'))"
    by blast
qed

lemmas pattern_eval = parseNotification_def matchHere_def openTag_def phaseAttribute_def lit_def
  js_def isSpace_def isWord_def trim_def orNull_def

theorem parseNotification_first_tagged_span_witness:
  "parseNotification exampleText
     = Some \<lparr> nstatus = js ''progress'', phase = Some (js ''coding''),
              content = js ''API done'' \<rparr>
   \<and> containsSpan exampleText
   \<and> (\<exists>pre span post st ph body.
         exampleText = pre @ span @ post \<and> taggedSpan span st ph body
         \<and> \<lparr> nstatus = js ''progress'', phase = Some (js ''coding''),
              content = js ''API done'' \<rparr>
             = \<lparr> nstatus = st, phase = orNull ph, content = trim body \<rparr>)
   \<and> parseNotification unterminatedText = None
   \<and> \<not> containsSpan unterminatedText"
proof -
  have a: "parseNotification exampleText
     = Some \<lparr> nstatus = js ''progress'', phase = Some (js ''coding''),
              content = js ''API done'' \<rparr>"
    by (simp add: exampleText_def pattern_eval)
  have b: "parseNotification unterminatedText = None"
    by (simp add: unterminatedText_def pattern_eval)
  note t1 = parseNotification_first_tagged_span[of exampleText]
  note t2 = parseNotification_first_tagged_span[of unterminatedText]
  from t1 a have c: "containsSpan exampleText" by simp
  from t2 b have d: "\<not> containsSpan unterminatedText" by simp
  from t1 a have "\<exists>pre span post st ph body.
            exampleText = pre @ span @ post \<and> taggedSpan span st ph body
            \<and> \<lparr> nstatus = js ''progress'', phase = Some (js ''coding''),
              content = js ''API done'' \<rparr>
                = \<lparr> nstatus = st, phase = orNull ph, content = trim body \<rparr>"
    by blast
  with a b c d show ?thesis by blast
qed

end
